theory Spec2Isabelle
  imports Main "HOL-Library.Word"
begin

section \<open>Data model of server.js\<close>

text \<open>
  The server is an Express application: a stack of middleware (CORS, static files under
  /images, the JSON body parser), two gated routes (POST /upload, DELETE /delete/:filename),
  a health check and a final error-handling middleware. Requests, responses and the
  filesystem are modelled as values; every handler takes the filesystem and returns the
  new one together with the response it sends.

  Strings are byte lists. The characters the code tests (the slash and the dot) are
  ASCII, so a multi-byte character never contains them.
\<close>

type_synonym bytes = "8 word list"

text \<open>The bodies the server sends: the JSON objects of the handlers, the text of the
  health check, a served file, or nothing.\<close>

datatype body =
    Message string
  | MessageError string string
  | Uploaded string string string
  | Text string
  | FileBody bytes
  | NoBody

record response =
  status :: nat
  body :: body

text \<open>A multipart file part as multer sees it, and the file object multer leaves in
  \<open>req.file\<close> (memory storage).\<close>

record part =
  fieldname :: string
  filename :: string
  mimetype :: string
  content :: bytes

record upfile =
  originalname :: string
  file_mimetype :: string
  buffer :: bytes

text \<open>
  Where the request path leads (Express matches the path patterns and percent-decodes the
  parameter while it matches): /upload; /delete/:filename with the decoded parameter, or
  with the raw parameter when it does not percent-decode; a path under the /images mount
  (the decoded part after \<open>/images/\<close>, its slashes written as such in the URL) or the bare
  mount point /images; the root; or anything else.
\<close>

datatype target =
    Upload
  | Delete string
  | DeleteUndecodable string
  | Images string
  | ImagesMount
  | Root
  | Other

text \<open>Errors passed to \<open>next(err)\<close>: a \<open>MulterError\<close> with its code and message, or any
  other \<open>Error\<close> with its message.\<close>

datatype server_error = MulterError string string | PlainError string

fun err_message :: "server_error \<Rightarrow> string" where
  "err_message (MulterError c m) = m"
| "err_message (PlainError m) = m"

text \<open>
  A request: \<open>origin\<close> is \<open>req.headers.origin\<close> (absent is \<open>None\<close>), \<open>host\<close> is
  \<open>req.get('host')\<close>, \<open>json_error\<close> is what the body parser \<open>express.json()\<close> of line 45
  does with the body (\<open>None\<close>: it calls \<open>next()\<close>, the body is not JSON or parses;
  \<open>Some m\<close>: it calls \<open>next(err)\<close> with message \<open>m\<close>). A multipart body is the file parts
  in the order they arrive (none when the body is not multipart) and the way it ends:
  \<open>form_error\<close> is \<open>None\<close> when the form is complete, and the error of the multipart parser
  or of multer that breaks it off after these parts otherwise (a missing boundary, an
  unexpected end of the form, a text field beyond the limits).
\<close>

record request =
  "method" :: string
  target :: target
  origin :: "string option"
  protocol :: string
  host :: "string option"
  json_error :: "string option"
  parts :: "part list"
  form_error :: "server_error option"

text \<open>The filesystem: entries by absolute path, and the trace of the calls that change it.
  An error of a filesystem call carries \<open>err.code\<close> and \<open>err.message\<close>.\<close>

datatype entry = File bytes | Dir

datatype fs_call = Unlink string | WriteFile string

record fs =
  entries :: "string \<rightharpoonup> entry"
  trace :: "fs_call list"

record fs_error =
  code :: string
  errmsg :: string

text \<open>
  What the process does not decide itself: \<open>imagesDir\<close> (line 20, an absolute normalised
  path), the encoder \<open>sharp(buffer).webp({quality})\<close> (an error message or the encoded
  bytes), the failure of writing a path, the error the filesystem raises when a path is
  removed whatever is stored there (a name longer than it allows, a missing permission),
  whether the transport accepts a file of exactly \<open>limits.fileSize\<close> bytes (multer hands
  the limit to its multipart parser, and releases of that parser differ at the boundary),
  and whether the static middleware hides a dot-led segment anywhere in the path (Express
  5) or only as the last one (Express 4).
\<close>

record env =
  imagesDir :: string
  sharp_webp :: "nat \<Rightarrow> bytes \<Rightarrow> string + bytes"
  write_fault :: "string \<Rightarrow> string option"
  unlink_fault :: "string \<Rightarrow> fs_error option"
  limit_inclusive :: bool
  hide_dot_dirs :: bool

section \<open>Strings and paths\<close>

text \<open>\<open>String.prototype.includes\<close>: the argument occurs as a substring.\<close>

fun starts_with :: "string \<Rightarrow> string \<Rightarrow> bool" where
  "starts_with s [] = True"
| "starts_with [] (c # cs) = False"
| "starts_with (x # xs) (c # cs) = (x = c \<and> starts_with xs cs)"

fun js_includes :: "string \<Rightarrow> string \<Rightarrow> bool" where
  "js_includes [] sub = (sub = [])"
| "js_includes (x # xs) sub = (starts_with (x # xs) sub \<or> js_includes xs sub)"

text \<open>\<open>String.prototype.slice(s, e)\<close> for indices that are not negative.\<close>

definition slice :: "string \<Rightarrow> int \<Rightarrow> int \<Rightarrow> string" where
  "slice p s e = drop (nat s) (take (nat e) p)"

text \<open>
  \<open>path.parse(p).name\<close> (POSIX): the variables of its loop, the loop itself, which runs
  \<open>i\<close> from the last index down to \<open>start\<close> (the argument \<open>Suc i\<close> is the number of
  positions still to visit), and the selection of the name.
\<close>

record parse_vars =
  startDot :: int
  startPart :: int
  endIdx :: int
  matchedSlash :: bool
  preDotState :: int

definition parse_init :: parse_vars where
  "parse_init = \<lparr>startDot = -1, startPart = 0, endIdx = -1, matchedSlash = True, preDotState = 0\<rparr>"

definition mark_end :: "nat \<Rightarrow> parse_vars \<Rightarrow> parse_vars" where
  "mark_end i v = (if endIdx v = -1 then v\<lparr>endIdx := int i + 1, matchedSlash := False\<rparr> else v)"

definition mark_dot :: "char \<Rightarrow> nat \<Rightarrow> parse_vars \<Rightarrow> parse_vars" where
  "mark_dot c i v =
     (if c = CHR ''.'' then
        (if startDot v = -1 then v\<lparr>startDot := int i\<rparr>
         else if preDotState v \<noteq> 1 then v\<lparr>preDotState := 1\<rparr> else v)
      else if startDot v \<noteq> -1 then v\<lparr>preDotState := -1\<rparr> else v)"

fun parse_loop :: "string \<Rightarrow> nat \<Rightarrow> nat \<Rightarrow> parse_vars \<Rightarrow> parse_vars" where
  "parse_loop p start 0 v = v"
| "parse_loop p start (Suc i) v =
     (if i < start then v
      else if p ! i = CHR ''/'' then
        (if \<not> matchedSlash v then v\<lparr>startPart := int i + 1\<rparr>
         else parse_loop p start i v)
      else parse_loop p start i (mark_dot (p ! i) i (mark_end i v)))"

definition parse_name :: "string \<Rightarrow> string" where
  "parse_name p =
     (if p = [] then []
      else
        let isAbsolute = (p ! 0 = CHR ''/'');
            start = (if isAbsolute then 1 else 0);
            v = parse_loop p start (length p) parse_init
        in if endIdx v \<noteq> -1 then
             (let s = (if startPart v = 0 \<and> isAbsolute then 1 else startPart v)
              in if startDot v = -1 \<or> preDotState v = 0 \<or>
                    (preDotState v = 1 \<and> startDot v = endIdx v - 1 \<and> startDot v = startPart v + 1)
                 then slice p s (endIdx v)
                 else slice p s (startDot v))
           else [])"

text \<open>
  \<open>path.join(imagesDir, name)\<close> for a name without a separator that is not \<open>..\<close>: both
  call sites pass such a name (the delete handler after its check; the upload handler
  because neither the parsed name nor a UUID holds a separator and the name ends in
  \<open>.webp\<close>). Joining the empty name or \<open>.\<close> gives the directory itself.
\<close>

definition path_join :: "string \<Rightarrow> string \<Rightarrow> string" where
  "path_join dir name = (if name = [] \<or> name = ''.'' then dir else dir @ ''/'' @ name)"

section \<open>Filesystem calls\<close>

definition enoent :: fs_error where
  "enoent = \<lparr>code = ''ENOENT'', errmsg = ''ENOENT: no such file or directory''\<rparr>"

definition eisdir :: fs_error where
  "eisdir = \<lparr>code = ''EISDIR'', errmsg = ''EISDIR: illegal operation on a directory''\<rparr>"

text \<open>
  \<open>fs.unlink(path, callback)\<close>: a path with a NUL byte makes the call throw before anything
  reaches the filesystem (the message names the path, in the wording of current Node
  releases); otherwise the call is traced, and
  the callback gets the error the filesystem raises on that path, else ENOENT for a
  missing entry, else an error for a directory, else nothing after the file is removed.
\<close>

datatype unlink_result = Removed | Failed fs_error | Threw string

definition null_byte_message :: "string \<Rightarrow> string" where
  "null_byte_message p =
     ''The argument 'path' must be a string, Uint8Array, or URL without null bytes. Received '' @ p"

definition unlink :: "env \<Rightarrow> fs \<Rightarrow> string \<Rightarrow> fs \<times> unlink_result" where
  "unlink e f p =
     (if CHR 0x00 \<in> set p then (f, Threw (null_byte_message p))
      else
        let f1 = f\<lparr>trace := trace f @ [Unlink p]\<rparr>
        in case unlink_fault e p of
             Some err \<Rightarrow> (f1, Failed err)
           | None \<Rightarrow>
               (case entries f p of
                  None \<Rightarrow> (f1, Failed enoent)
                | Some Dir \<Rightarrow> (f1, Failed eisdir)
                | Some (File b) \<Rightarrow> (f1\<lparr>entries := (entries f)(p := None)\<rparr>, Removed)))"

text \<open>\<open>sharp(buffer).webp({ quality: 80 }).toFile(outputPath)\<close>: encode, then write; the
  promise rejects with a message when either fails.\<close>

definition sharp_toFile :: "env \<Rightarrow> fs \<Rightarrow> bytes \<Rightarrow> string \<Rightarrow> fs \<times> (string + unit)" where
  "sharp_toFile e f buf outputPath =
     (case sharp_webp e 80 buf of
        Inl m \<Rightarrow> (f, Inl m)
      | Inr out \<Rightarrow>
          (let f1 = f\<lparr>trace := trace f @ [WriteFile outputPath]\<rparr>
           in case write_fault e outputPath of
                Some m \<Rightarrow> (f1, Inl m)
              | None \<Rightarrow>
                  (if entries f outputPath = Some Dir then (f1, Inl (errmsg eisdir))
                   else (f1\<lparr>entries := (entries f)(outputPath \<mapsto> File out)\<rparr>, Inr ()))))"

section \<open>Middleware\<close>

definition allowedDomainsForCRUD :: "string list" where
  "allowedDomainsForCRUD = [''http://localhost:5500'', ''http://127.0.0.1:5500'']"

definition forbidden :: response where
  "forbidden = \<lparr>status = 403, body = Message ''Forbidden: Akses dari domain ini tidak diizinkan.''\<rparr>"

text \<open>\<open>checkDomain\<close>: \<open>None\<close> is \<open>next()\<close>, \<open>Some r\<close> is the response it sends. An empty
  origin string is falsy in \<open>origin && ...\<close>.\<close>

definition checkDomain :: "request \<Rightarrow> response option" where
  "checkDomain req =
     (if method req \<in> set [''POST'', ''DELETE'', ''PUT'', ''PATCH''] then
        (case origin req of
           None \<Rightarrow> Some forbidden
         | Some orig \<Rightarrow>
             if orig \<noteq> [] \<and> orig \<in> set allowedDomainsForCRUD then None
             else Some forbidden)
      else None)"

definition fileSize :: nat where
  "fileSize = 10 * 1024 * 1024"

definition allowedMimes :: "string list" where
  "allowedMimes = [''image/jpeg'', ''image/png'', ''image/gif'', ''image/webp'']"

definition invalid_type_message :: string where
  "invalid_type_message = ''Jenis file tidak valid. Hanya gambar yang diizinkan.''"

text \<open>\<open>fileFilter\<close>: \<open>cb(null, true)\<close> or \<open>cb(new Error(...), false)\<close>.\<close>

definition fileFilter :: "part \<Rightarrow> server_error + bool" where
  "fileFilter file =
     (if mimetype file \<in> set allowedMimes then Inr True
      else Inl (PlainError invalid_type_message))"

text \<open>
  \<open>multer({storage, limits, fileFilter}).single('image')\<close> over the file parts in the order
  they arrive; the first error aborts the request. A part without a filename is skipped;
  a file in another field, or a second file in the field, is LIMIT_UNEXPECTED_FILE; then
  the file filter runs; then the body is buffered under the size limit, LIMIT_FILE_SIZE
  when it is exceeded. A form that breaks off passes its error on. The result is
  \<open>req.file\<close>.
\<close>

definition too_large :: "env \<Rightarrow> nat \<Rightarrow> bool" where
  "too_large e n = (n > fileSize \<or> (n = fileSize \<and> \<not> limit_inclusive e))"

definition limit_file_size :: server_error where
  "limit_file_size = MulterError ''LIMIT_FILE_SIZE'' ''File too large''"

definition limit_unexpected_file :: server_error where
  "limit_unexpected_file = MulterError ''LIMIT_UNEXPECTED_FILE'' ''Unexpected field''"

fun multer_single ::
  "env \<Rightarrow> string \<Rightarrow> nat \<Rightarrow> server_error option \<Rightarrow> part list \<Rightarrow> upfile option \<Rightarrow>
   server_error + upfile option" where
  "multer_single e field left ferr [] acc =
     (case ferr of None \<Rightarrow> Inr acc | Some err \<Rightarrow> Inl err)"
| "multer_single e field left ferr (p # ps) acc =
     (if filename p = [] then multer_single e field left ferr ps acc
      else if fieldname p \<noteq> field \<or> left = 0 then Inl limit_unexpected_file
      else case fileFilter p of
             Inl err \<Rightarrow> Inl err
           | Inr False \<Rightarrow> multer_single e field (left - 1) ferr ps acc
           | Inr True \<Rightarrow>
               if too_large e (length (content p)) then Inl limit_file_size
               else multer_single e field (left - 1) ferr ps
                      (Some \<lparr>originalname = filename p, file_mimetype = mimetype p,
                             buffer = content p\<rparr>))"

definition upload_single :: "env \<Rightarrow> request \<Rightarrow> server_error + upfile option" where
  "upload_single e req = multer_single e ''image'' 1 (form_error req) (parts req) None"

text \<open>The error-handling middleware of lines 152-159: both branches answer 400 with the
  message of the error.\<close>

definition error_middleware :: "server_error \<Rightarrow> response" where
  "error_middleware err =
     (case err of
        MulterError c m \<Rightarrow> \<lparr>status = 400, body = Message m\<rparr>
      | PlainError m \<Rightarrow> \<lparr>status = 400, body = Message m\<rparr>)"

section \<open>Route handlers\<close>

definition no_file_message :: string where
  "no_file_message = ''Tidak ada file gambar yang diunggah.''"

definition processing_message :: string where
  "processing_message = ''Terjadi kesalahan pada server saat memproses gambar.''"

definition uploaded_message :: string where
  "uploaded_message = ''Gambar berhasil diunggah dan dikonversi ke WebP.''"

definition uniqueFilename :: "string \<Rightarrow> string \<Rightarrow> string" where
  "uniqueFilename orig token = parse_name orig @ ''-'' @ token @ ''.webp''"

definition host_text :: "string option \<Rightarrow> string" where
  "host_text h = (case h of None \<Rightarrow> ''undefined'' | Some s \<Rightarrow> s)"

text \<open>The handler of POST /upload; \<open>token\<close> is the value \<open>uuidv4()\<close> returns in this
  request.\<close>

definition upload_handler ::
  "env \<Rightarrow> string \<Rightarrow> fs \<Rightarrow> request \<Rightarrow> upfile option \<Rightarrow> fs \<times> response" where
  "upload_handler e token f req file =
     (case file of
        None \<Rightarrow> (f, \<lparr>status = 400, body = Message no_file_message\<rparr>)
      | Some fl \<Rightarrow>
          (let name = uniqueFilename (originalname fl) token;
               outputPath = path_join (imagesDir e) name
           in case sharp_toFile e f (buffer fl) outputPath of
                (f1, Inl m) \<Rightarrow>
                  (f1, \<lparr>status = 500, body = MessageError processing_message m\<rparr>)
              | (f1, Inr u) \<Rightarrow>
                  (f1, \<lparr>status = 201,
                        body = Uploaded uploaded_message name
                                 (protocol req @ ''://'' @ host_text (host req) @ ''/images/'' @ name)\<rparr>)))"

definition invalid_name :: response where
  "invalid_name = \<lparr>status = 400, body = Message ''Nama file tidak valid.''\<rparr>"

definition not_found :: response where
  "not_found = \<lparr>status = 404, body = Message ''File tidak ditemukan.''\<rparr>"

definition delete_failed :: response where
  "delete_failed = \<lparr>status = 500, body = Message ''Gagal menghapus file.''\<rparr>"

definition deleted :: response where
  "deleted = \<lparr>status = 200, body = Message ''File berhasil dihapus.''\<rparr>"

text \<open>The handler of DELETE /delete/:filename. What \<open>fs.unlink\<close> throws leaves the handler
  as an exception, which Express passes to the error-handling middleware.\<close>

definition delete_handler :: "env \<Rightarrow> fs \<Rightarrow> string \<Rightarrow> fs \<times> response" where
  "delete_handler e f name =
     (if js_includes name ''..'' \<or> js_includes name ''/'' then (f, invalid_name)
      else
        let filePath = path_join (imagesDir e) name
        in case unlink e f filePath of
             (f1, Threw m) \<Rightarrow> (f1, error_middleware (PlainError m))
           | (f1, Failed err) \<Rightarrow>
               if code err = ''ENOENT'' then (f1, not_found) else (f1, delete_failed)
           | (f1, Removed) \<Rightarrow> (f1, deleted))"

section \<open>The application\<close>

text \<open>
  \<open>express.static(imagesDir)\<close> with its defaults, mounted at /images, for a request without
  conditional or range headers: only GET and HEAD;
  a path with a NUL is not served; the path is normalised (empty and \<open>.\<close> segments go, a
  \<open>..\<close> segment takes the segment before it away or stays when there is none); a normalised
  path that still has a \<open>..\<close> between slashes or backslashes is not served; a path whose
  last part starts with a dot, or any part where dot-led directories are hidden too, is not
  served (dotfiles are ignored by default); a directory without the trailing slash
  redirects, with it serves its index.html. Wherever nothing is served the middleware
  calls \<open>next()\<close> (\<open>None\<close>).
\<close>

fun split_on :: "(char \<Rightarrow> bool) \<Rightarrow> string \<Rightarrow> string list" where
  "split_on sep [] = [[]]"
| "split_on sep (c # cs) =
     (if sep c then [] # split_on sep cs
      else case split_on sep cs of
             [] \<Rightarrow> [[c]]
           | x # xs \<Rightarrow> (c # x) # xs)"

fun norm_segs :: "string list \<Rightarrow> string list \<Rightarrow> string list" where
  "norm_segs acc [] = rev acc"
| "norm_segs acc (s # ss) =
     (if s = [] \<or> s = ''.'' then norm_segs acc ss
      else if s = ''..'' then
        (case acc of
           [] \<Rightarrow> norm_segs [''..''] ss
         | a # as \<Rightarrow> if a = ''..'' then norm_segs (''..'' # acc) ss else norm_segs as ss)
      else norm_segs (s # acc) ss)"

definition has_up_segment :: "string \<Rightarrow> bool" where
  "has_up_segment name = (''..'' \<in> set (split_on (\<lambda>c. c = CHR ''/'' \<or> c = CHR 0x5C) name))"

definition is_dotfile :: "string \<Rightarrow> bool" where
  "is_dotfile seg = (length seg > 1 \<and> hd seg = CHR ''.'')"

definition get_or_head :: "string \<Rightarrow> bool" where
  "get_or_head m = (m = ''GET'' \<or> m = ''HEAD'')"

definition send_body :: "request \<Rightarrow> body \<Rightarrow> body" where
  "send_body req b = (if method req = ''HEAD'' then NoBody else b)"

definition serve_static :: "env \<Rightarrow> fs \<Rightarrow> request \<Rightarrow> string \<Rightarrow> response option" where
  "serve_static e f req name =
     (if \<not> get_or_head (method req) then None
      else if CHR 0x00 \<in> set name then None
      else
        let segs = norm_segs [] (split_on (\<lambda>c. c = CHR ''/'') name);
            trailing = (name = [] \<or> last name = CHR ''/'');
            pieces = (if segs = [] then [''.''] else segs) @ (if trailing then [[]] else []);
            p = imagesDir e @ concat (map (\<lambda>s. ''/'' @ s) segs)
        in if list_ex has_up_segment segs then None
           else if (if hide_dot_dirs e then list_ex is_dotfile pieces
                    else is_dotfile (last pieces)) then None
           else case entries f p of
                  None \<Rightarrow> None
                | Some (File b) \<Rightarrow>
                    if trailing then None
                    else Some \<lparr>status = 200, body = send_body req (FileBody b)\<rparr>
                | Some Dir \<Rightarrow>
                    if \<not> trailing then Some \<lparr>status = 301, body = NoBody\<rparr>
                    else (case entries f (p @ ''/index.html'') of
                            Some (File b) \<Rightarrow>
                              Some \<lparr>status = 200, body = send_body req (FileBody b)\<rparr>
                          | _ \<Rightarrow> None))"

text \<open>The bare mount point is the images directory without a trailing slash: a redirect.\<close>

definition serve_mount :: "env \<Rightarrow> fs \<Rightarrow> request \<Rightarrow> response option" where
  "serve_mount e f req =
     (if get_or_head (method req) \<and> entries f (imagesDir e) = Some Dir
      then Some \<lparr>status = 301, body = NoBody\<rparr> else None)"

definition health :: response where
  "health = \<lparr>status = 200, body = Text ''Server CDN Sederhana berjalan!''\<rparr>"

definition default_404 :: response where
  "default_404 = \<lparr>status = 404, body = NoBody\<rparr>"

text \<open>
  The routes, in the order they are registered, after the body parser let the request
  through. A parameter that does not percent-decode fails while the path is matched, for
  any method: Express passes the error (status 400, message
  \<open>Failed to decode param\<close> with the raw parameter in quotes) to the error-handling
  middleware, and no handler of the route runs.
\<close>

definition decode_failed :: "string \<Rightarrow> server_error" where
  "decode_failed raw = PlainError (''Failed to decode param '' @ [CHR 0x27] @ raw @ [CHR 0x27])"

definition routes :: "env \<Rightarrow> string \<Rightarrow> fs \<Rightarrow> request \<Rightarrow> fs \<times> response" where
  "routes e token f req =
     (case (method req, target req) of
        (m, Upload) \<Rightarrow>
          if m = ''POST'' then
            (case checkDomain req of
               Some r \<Rightarrow> (f, r)
             | None \<Rightarrow>
                 (case upload_single e req of
                    Inl err \<Rightarrow> (f, error_middleware err)
                  | Inr file \<Rightarrow> upload_handler e token f req file))
          else (f, default_404)
      | (m, Delete name) \<Rightarrow>
          if m = ''DELETE'' then
            (case checkDomain req of
               Some r \<Rightarrow> (f, r)
             | None \<Rightarrow> delete_handler e f name)
          else (f, default_404)
      | (m, DeleteUndecodable raw) \<Rightarrow> (f, error_middleware (decode_failed raw))
      | (m, Root) \<Rightarrow>
          if get_or_head m then (f, health\<lparr>body := send_body req (body health)\<rparr>)
          else (f, default_404)
      | (m, _) \<Rightarrow> (f, default_404))"

text \<open>
  The whole stack for one request, in the order of the \<open>app.use\<close> calls: the CORS
  middleware (it allows every origin and answers a preflight itself), the static files,
  the JSON body parser (its error goes straight to the error-handling middleware), the
  routes.
\<close>

definition handle :: "env \<Rightarrow> string \<Rightarrow> fs \<Rightarrow> request \<Rightarrow> fs \<times> response" where
  "handle e token f req =
     (if method req = ''OPTIONS'' then (f, \<lparr>status = 204, body = NoBody\<rparr>)
      else
        case (case target req of
                Images name \<Rightarrow> serve_static e f req name
              | ImagesMount \<Rightarrow> serve_mount e f req
              | _ \<Rightarrow> None) of
          Some r \<Rightarrow> (f, r)
        | None \<Rightarrow>
            (case json_error req of
               Some m \<Rightarrow> (f, error_middleware (PlainError m))
             | None \<Rightarrow> routes e token f req))"

text \<open>A run of the server: the requests one after the other, each with the token its
  \<open>uuidv4()\<close> call would return.\<close>

fun run :: "env \<Rightarrow> fs \<Rightarrow> (string \<times> request) list \<Rightarrow> fs" where
  "run e f [] = f"
| "run e f ((token, req) # rs) = run e (fst (handle e token f req)) rs"

section \<open>Notions of the specification\<close>

text \<open>A request that the body parser lets through and whose origin is an entry of the
  allow-list.\<close>

definition passes_gate :: "request \<Rightarrow> bool" where
  "passes_gate req =
     (json_error req = None \<and>
      (case origin req of None \<Rightarrow> False | Some orig \<Rightarrow> orig \<in> set allowedDomainsForCRUD))"

text \<open>A name has a parent-directory segment when one of its segments between slashes
  is \<open>..\<close>.\<close>

definition parent_segment :: "string \<Rightarrow> bool" where
  "parent_segment name = (''..'' \<in> set (split_on (\<lambda>c. c = CHR ''/'') name))"

text \<open>The strings a response body carries, and whether one of them names the images
  directory.\<close>

fun body_strings :: "body \<Rightarrow> string list" where
  "body_strings (Message m) = [m]"
| "body_strings (MessageError m err) = [m, err]"
| "body_strings (Uploaded m name url) = [m, name, url]"
| "body_strings (Text t) = [t]"
| "body_strings (FileBody b) = []"
| "body_strings NoBody = []"

definition leaks_path :: "env \<Rightarrow> response \<Rightarrow> bool" where
  "leaks_path e r = list_ex (\<lambda>s. js_includes s (imagesDir e)) (body_strings (body r))"

text \<open>A file part that carries a file (multer skips a part without a filename).\<close>

definition named :: "part \<Rightarrow> bool" where
  "named p = (filename p \<noteq> [])"

text \<open>The file object multer makes of a part it accepts.\<close>

definition file_of :: "part \<Rightarrow> upfile" where
  "file_of p = \<lparr>originalname = filename p, file_mimetype = mimetype p, buffer = content p\<rparr>"

text \<open>
  The original name with its directory components and its extension stripped, as the
  specification words it: the last component is what stands after the last slash, slashes
  at the end put aside; the extension is the last dot of that component and what follows
  it, unless the component starts with that dot.
\<close>

definition last_component :: "string \<Rightarrow> string" where
  "last_component p =
     rev (takeWhile (\<lambda>c. c \<noteq> CHR ''/'') (dropWhile (\<lambda>c. c = CHR ''/'') (rev p)))"

definition strip_extension :: "string \<Rightarrow> string" where
  "strip_extension b =
     (if CHR ''.'' \<notin> set b then b
      else let st = rev (tl (dropWhile (\<lambda>c. c \<noteq> CHR ''.'') (rev b)))
           in if st = [] then b else st)"

definition base_label :: "string \<Rightarrow> string" where
  "base_label p = strip_extension (last_component p)"

text \<open>A UUID in its canonical rendering: 32 lower-case hexadecimal digits in groups of 8,
  4, 4, 4 and 12, the version digit 4 and a variant digit of 8, 9, a or b.\<close>

definition is_hex :: "char \<Rightarrow> bool" where
  "is_hex c = (c \<in> set ''0123456789abcdef'')"

definition uuid_char :: "char \<Rightarrow> char \<Rightarrow> bool" where
  "uuid_char k c =
     (if k = CHR ''x'' then is_hex c
      else if k = CHR ''y'' then c \<in> set ''89ab''
      else c = k)"

definition uuid_canonical :: "string \<Rightarrow> bool" where
  "uuid_canonical t = list_all2 uuid_char ''xxxxxxxx-xxxx-4xxx-yxxx-xxxxxxxxxxxx'' t"

text \<open>
  For the proofs about the loop of \<open>path.parse\<close>: the piece of a string between two
  indices; what the loop knows about the dots after visiting the indices from \<open>k\<close> up to
  the end \<open>e\<close> of the last component; what holds before each iteration; where the last
  component starts; what holds when the loop is left; and the shapes the parsed name can
  have.
\<close>

definition seg :: "string \<Rightarrow> nat \<Rightarrow> nat \<Rightarrow> string" where
  "seg p a b = drop a (take b p)"

definition dots_ok :: "string \<Rightarrow> nat \<Rightarrow> nat \<Rightarrow> parse_vars \<Rightarrow> bool" where
  "dots_ok p k e v =
     ((startDot v = -1 \<longrightarrow> CHR ''.'' \<notin> set (seg p k e) \<and> preDotState v = 0) \<and>
      (startDot v \<noteq> -1 \<longrightarrow>
         int k \<le> startDot v \<and> startDot v < int e \<and> p ! nat (startDot v) = CHR ''.'' \<and>
         CHR ''.'' \<notin> set (seg p (Suc (nat (startDot v))) e) \<and>
         (preDotState v = 0 \<longleftrightarrow> startDot v = int k) \<and>
         (preDotState v = 1 \<longleftrightarrow> startDot v \<noteq> int k \<and> p ! k = CHR ''.'')))"

definition loop_inv :: "string \<Rightarrow> nat \<Rightarrow> parse_vars \<Rightarrow> bool" where
  "loop_inv p k v =
     (startPart v = 0 \<and>
      (endIdx v = -1 \<longrightarrow>
         matchedSlash v \<and> set (drop k p) \<subseteq> {CHR ''/''} \<and> startDot v = -1 \<and> preDotState v = 0) \<and>
      (endIdx v \<noteq> -1 \<longrightarrow>
         \<not> matchedSlash v \<and> int k < endIdx v \<and> endIdx v \<le> int (length p) \<and>
         set (drop (nat (endIdx v)) p) \<subseteq> {CHR ''/''} \<and>
         CHR ''/'' \<notin> set (seg p k (nat (endIdx v))) \<and>
         dots_ok p k (nat (endIdx v)) v))"

definition base_start :: "nat \<Rightarrow> parse_vars \<Rightarrow> nat" where
  "base_start start v = (if startPart v = 0 then start else nat (startPart v))"

definition loop_post :: "string \<Rightarrow> nat \<Rightarrow> parse_vars \<Rightarrow> bool" where
  "loop_post p start v =
     ((endIdx v = -1 \<longrightarrow> set (drop start p) \<subseteq> {CHR ''/''}) \<and>
      (endIdx v \<noteq> -1 \<longrightarrow>
         0 \<le> startPart v \<and>
         int (base_start start v) < endIdx v \<and> endIdx v \<le> int (length p) \<and>
         set (drop (nat (endIdx v)) p) \<subseteq> {CHR ''/''} \<and>
         CHR ''/'' \<notin> set (seg p (base_start start v) (nat (endIdx v))) \<and>
         (base_start start v = 0 \<or> p ! (base_start start v - 1) = CHR ''/'') \<and>
         dots_ok p (base_start start v) (nat (endIdx v)) v))"

definition name_shape :: "string \<Rightarrow> string \<Rightarrow> bool" where
  "name_shape p name =
     ((set p \<subseteq> {CHR ''/''} \<and> name = []) \<or>
      (\<exists>s e. s < e \<and> e \<le> length p \<and> set (drop e p) \<subseteq> {CHR ''/''} \<and>
         CHR ''/'' \<notin> set (seg p s e) \<and> (s = 0 \<or> p ! (s - 1) = CHR ''/'') \<and>
         ((name = seg p s e \<and>
             (CHR ''.'' \<notin> set (seg p s e) \<or>
              (p ! s = CHR ''.'' \<and> CHR ''.'' \<notin> set (seg p (Suc s) e)) \<or>
              seg p s e = ''..'')) \<or>
          (\<exists>d. s < d \<and> d < e \<and> p ! d = CHR ''.'' \<and> CHR ''.'' \<notin> set (seg p (Suc d) e) \<and>
             name = seg p s d))))"

section \<open>Example configuration\<close>

text \<open>A deployment in which nothing fails (the encoder returns its input unchanged), and
  the filesystem right after startup, which has created the images directory (lines
  21-23).\<close>

definition example_env :: env where
  "example_env =
     \<lparr>imagesDir = ''/srv/cdn/public/images'', sharp_webp = (\<lambda>q b. Inr b),
      write_fault = (\<lambda>p. None), unlink_fault = (\<lambda>p. None), limit_inclusive = True,
      hide_dot_dirs = False\<rparr>"

definition startup_fs :: "env \<Rightarrow> fs" where
  "startup_fs e = \<lparr>entries = [imagesDir e \<mapsto> Dir], trace = []\<rparr>"

definition failing_env :: env where
  "failing_env =
     example_env\<lparr>write_fault := (\<lambda>p. Some (''unable to open file '' @ p @ '' for writing''))\<rparr>"

definition example_token :: string where
  "example_token = ''1b9d6bcd-bbfd-4b2d-9b5d-ab8dfbbd4bed''"

text \<open>The same deployment on a filesystem whose names hold at most 255 bytes.\<close>

definition enametoolong :: fs_error where
  "enametoolong = \<lparr>code = ''ENAMETOOLONG'', errmsg = ''ENAMETOOLONG: name too long''\<rparr>"

definition name_max_env :: env where
  "name_max_env =
     example_env\<lparr>unlink_fault :=
       (\<lambda>p. if 255 < length (takeWhile (\<lambda>c. c \<noteq> CHR ''/'') (rev p)) then Some enametoolong
            else None)\<rparr>"

definition example_request :: request where
  "example_request =
     \<lparr>method = ''GET'', target = Root, origin = None, protocol = ''http'',
      host = Some ''localhost:3000'', json_error = None, parts = [], form_error = None\<rparr>"

text \<open>An upload of one JPEG file in the field \<open>image\<close> from an allowed origin, under a
  given original name.\<close>

definition upload_of :: "string \<Rightarrow> request" where
  "upload_of name =
     example_request\<lparr>method := ''POST'', target := Upload,
       origin := Some ''http://localhost:5500'',
       parts := [\<lparr>fieldname = ''image'', filename = name, mimetype = ''image/jpeg'',
                  content = [0xFF, 0xD8, 0xFF]\<rparr>]\<rparr>"

text \<open>A read of a stored name by anybody: GET /images/name without an origin.\<close>

definition read_of :: "string \<Rightarrow> request" where
  "read_of name = example_request\<lparr>target := Images name\<rparr>"

text \<open>The names the static middleware serves from the flat store when the file exists.\<close>

definition servable :: "string \<Rightarrow> bool" where
  "servable name =
     (name \<noteq> [] \<and> CHR 0x00 \<notin> set name \<and> CHR ''/'' \<notin> set name \<and>
      \<not> has_up_segment name \<and> hd name \<noteq> CHR ''.'')"

section \<open>Substrings and segments\<close>

text \<open>\<open>js_includes\<close> is the substring relation; every segment of a split is a substring, so
  a name with a parent-directory segment includes \<open>..\<close>.\<close>

lemma starts_with_iff: "starts_with s sub \<longleftrightarrow> (\<exists>r. s = sub @ r)"
  by (induction s sub rule: starts_with.induct) auto

lemma js_includes_iff: "js_includes s sub \<longleftrightarrow> (\<exists>a b. s = a @ sub @ b)"
proof (induction s)
  case Nil
  then show ?case by auto
next
  case (Cons x xs)
  show ?case
  proof
    assume "js_includes (x # xs) sub"
    then consider "starts_with (x # xs) sub" | "js_includes xs sub" by auto
    then show "\<exists>a b. x # xs = a @ sub @ b"
    proof cases
      case 1
      then obtain r where "x # xs = sub @ r" by (auto simp: starts_with_iff)
      then have "x # xs = [] @ sub @ r" by simp
      then show ?thesis by blast
    next
      case 2
      with Cons.IH obtain a b where "xs = a @ sub @ b" by blast
      then have "x # xs = (x # a) @ sub @ b" by simp
      then show ?thesis by blast
    qed
  next
    assume "\<exists>a b. x # xs = a @ sub @ b"
    then obtain a b where ab: "x # xs = a @ sub @ b" by blast
    show "js_includes (x # xs) sub"
    proof (cases a)
      case Nil
      with ab have "starts_with (x # xs) sub" by (auto simp: starts_with_iff)
      then show ?thesis by simp
    next
      case (Cons y ys)
      with ab have "xs = ys @ sub @ b" by simp
      with Cons.IH have "js_includes xs sub" by blast
      then show ?thesis by simp
    qed
  qed
qed

lemma js_includes_single: "js_includes s [c] \<longleftrightarrow> c \<in> set s"
  by (induction s) auto

lemma js_includes_append_left: "js_includes s sub \<Longrightarrow> js_includes (s @ t) sub"
  by (auto simp: js_includes_iff) blast

lemma split_on_not_Nil: "split_on sep s \<noteq> []"
  by (induction s) (auto split: list.splits)

lemma split_on_hd_prefix: "starts_with s (hd (split_on sep s))"
  by (induction s) (auto split: list.splits)

lemma split_on_segment_included: "sg \<in> set (split_on sep s) \<Longrightarrow> js_includes s sg"
proof (induction s arbitrary: sg)
  case Nil
  then show ?case by simp
next
  case (Cons c cs)
  show ?case
  proof (cases "sep c")
    case True
    with Cons.prems have "sg = [] \<or> sg \<in> set (split_on sep cs)" by simp
    then show ?thesis using Cons.IH by (cases sg) auto
  next
    case False
    obtain x xs where sp: "split_on sep cs = x # xs"
      using split_on_not_Nil [of sep cs] by (cases "split_on sep cs") auto
    with False Cons.prems have "sg = c # x \<or> sg \<in> set xs" by simp
    then show ?thesis
    proof
      assume "sg = c # x"
      moreover have "starts_with cs x" using split_on_hd_prefix [of cs sep] sp by simp
      ultimately show ?thesis by simp
    next
      assume "sg \<in> set xs"
      with sp have "sg \<in> set (split_on sep cs)" by simp
      with Cons.IH show ?thesis by simp
    qed
  qed
qed

lemma split_on_no_sep: "\<forall>c \<in> set s. \<not> sep c \<Longrightarrow> split_on sep s = [s]"
  by (induction s) auto

lemma parent_segment_includes: "parent_segment name \<Longrightarrow> js_includes name ''..''"
  unfolding parent_segment_def by (rule split_on_segment_included)

section \<open>The loop of path.parse\<close>

text \<open>
  The loop is followed with an invariant: before index \<open>k - 1\<close> is visited, either only
  slashes have been seen, or the end of the last component is known, no slash lies between
  \<open>k\<close> and that end, and the dot variables describe the dots in between. From what
  holds when the loop is left, the parsed name is a piece of the original name without a
  slash, and it is the base label of the specification.
\<close>

lemma seg_Cons: "i < e \<Longrightarrow> e \<le> length p \<Longrightarrow> seg p i e = p ! i # seg p (Suc i) e"
  by (simp add: seg_def Cons_nth_drop_Suc [symmetric])

lemma seg_empty: "e \<le> k \<Longrightarrow> seg p k e = []"
  by (simp add: seg_def)

lemma drop_Cons_nth: "i < length p \<Longrightarrow> drop i p = p ! i # drop (Suc i) p"
  by (simp add: Cons_nth_drop_Suc)

lemma dots_ok_startPart [simp]: "dots_ok p k e (v\<lparr>startPart := x\<rparr>) = dots_ok p k e v"
  by (simp add: dots_ok_def)

lemma loop_inv_init: "loop_inv p (length p) parse_init"
  by (simp add: loop_inv_def parse_init_def)

lemma inv_step_slash:
  assumes "loop_inv p (Suc i) v" and "Suc i \<le> length p" and "p ! i = CHR ''/''" and "matchedSlash v"
  shows "loop_inv p i v"
  using assms by (auto simp: loop_inv_def drop_Cons_nth)

lemma inv_step_new:
  assumes "loop_inv p (Suc i) v" and "Suc i \<le> length p" and "p ! i \<noteq> CHR ''/''"
    and "endIdx v = -1"
  shows "loop_inv p i (mark_dot (p ! i) i (mark_end i v))"
proof -
  from assms have f: "startPart v = 0" "set (drop (Suc i) p) \<subseteq> {CHR ''/''}" "startDot v = -1"
    "preDotState v = 0"
    by (simp_all add: loop_inv_def)
  have s: "seg p i (Suc i) = [p ! i]"
    using assms(2) by (simp add: seg_Cons seg_empty)
  show ?thesis
  proof (cases "p ! i = CHR ''.''")
    case True
    then show ?thesis
      using f assms(2,3,4) s
      by (simp add: loop_inv_def mark_end_def mark_dot_def dots_ok_def nat_add_distrib seg_empty)
  next
    case False
    then show ?thesis
      using f assms(2,3,4) s
      by (simp add: loop_inv_def mark_end_def mark_dot_def dots_ok_def nat_add_distrib)
  qed
qed

lemma inv_step_old:
  assumes "loop_inv p (Suc i) v" and "Suc i \<le> length p" and "p ! i \<noteq> CHR ''/''"
    and "endIdx v \<noteq> -1"
  shows "loop_inv p i (mark_dot (p ! i) i (mark_end i v))"
proof -
  let ?e = "nat (endIdx v)"
  from assms have f: "startPart v = 0" "\<not> matchedSlash v" "int (Suc i) < endIdx v"
    "endIdx v \<le> int (length p)" "set (drop ?e p) \<subseteq> {CHR ''/''}"
    "CHR ''/'' \<notin> set (seg p (Suc i) ?e)" "dots_ok p (Suc i) ?e v"
    by (simp_all add: loop_inv_def)
  from f have e: "i < ?e" "?e \<le> length p" by simp_all
  have s: "seg p i ?e = p ! i # seg p (Suc i) ?e"
    by (rule seg_Cons [OF e])
  have m: "mark_end i v = v"
    using assms(4) by (simp add: mark_end_def)
  have d: "dots_ok p i ?e (mark_dot (p ! i) i v)"
  proof (cases "startDot v = -1")
    case True
    with f(7) have "CHR ''.'' \<notin> set (seg p (Suc i) ?e)" "preDotState v = 0"
      by (simp_all add: dots_ok_def)
    with True e f(3) show ?thesis
      by (simp add: dots_ok_def mark_dot_def s)
  next
    case False
    with f(7) have g: "int (Suc i) \<le> startDot v" "startDot v < int ?e"
      "p ! nat (startDot v) = CHR ''.''" "CHR ''.'' \<notin> set (seg p (Suc (nat (startDot v))) ?e)"
      by (simp_all add: dots_ok_def)
    from g(1) have ne: "startDot v \<noteq> int i" by simp
    from g(1) have le: "int i \<le> startDot v" by simp
    show ?thesis
      using False g(2-4) ne le
      by (simp add: dots_ok_def mark_dot_def)
  qed
  have "endIdx (mark_dot (p ! i) i v) = endIdx v" "startPart (mark_dot (p ! i) i v) = startPart v"
    "matchedSlash (mark_dot (p ! i) i v) = matchedSlash v"
    by (simp_all add: mark_dot_def)
  with f d assms(3,4) s show ?thesis
    by (simp add: loop_inv_def m)
qed

lemma inv_step_char:
  assumes "loop_inv p (Suc i) v" and "Suc i \<le> length p" and "p ! i \<noteq> CHR ''/''"
  shows "loop_inv p i (mark_dot (p ! i) i (mark_end i v))"
  using inv_step_new [OF assms] inv_step_old [OF assms] by blast

lemma post_break:
  assumes "loop_inv p (Suc i) v" and "Suc i \<le> length p" and "p ! i = CHR ''/''"
    and "\<not> matchedSlash v"
  shows "loop_post p start (v\<lparr>startPart := int i + 1\<rparr>)"
proof -
  from assms(1,4) have e: "endIdx v \<noteq> -1" by (auto simp: loop_inv_def)
  with assms(1) have f: "int (Suc i) < endIdx v"
    "endIdx v \<le> int (length p)" "set (drop (nat (endIdx v)) p) \<subseteq> {CHR ''/''}"
    "CHR ''/'' \<notin> set (seg p (Suc i) (nat (endIdx v)))" "dots_ok p (Suc i) (nat (endIdx v)) v"
    by (simp_all add: loop_inv_def)
  have b: "base_start start (v\<lparr>startPart := int i + 1\<rparr>) = Suc i"
    by (simp add: base_start_def nat_add_distrib)
  show ?thesis
    unfolding loop_post_def b using e f assms(3) by simp
qed

lemma post_stop:
  assumes "loop_inv p start v" and "start = 0 \<or> start = 1 \<and> p ! 0 = CHR ''/''"
  shows "loop_post p start v"
proof -
  from assms(1) have sp: "startPart v = 0" by (simp add: loop_inv_def)
  then have b: "base_start start v = start" by (simp add: base_start_def)
  show ?thesis
    unfolding loop_post_def b using assms sp by (auto simp: loop_inv_def)
qed

lemma parse_loop_post:
  assumes "start = 0 \<or> start = 1 \<and> p ! 0 = CHR ''/''"
  shows "loop_inv p k v \<Longrightarrow> start \<le> k \<Longrightarrow> k \<le> length p \<Longrightarrow>
         loop_post p start (parse_loop p start k v)"
proof (induction k arbitrary: v)
  case 0
  with assms post_stop show ?case by simp
next
  case (Suc i)
  show ?case
  proof (cases "i < start")
    case True
    with Suc.prems have "start = Suc i" by simp
    with Suc.prems post_stop [OF _ assms] True show ?thesis by simp
  next
    case False
    then have s: "start \<le> i" by simp
    from Suc.prems have l: "i \<le> length p" by simp
    show ?thesis
    proof (cases "p ! i = CHR ''/''")
      case True
      show ?thesis
      proof (cases "matchedSlash v")
        case True
        from inv_step_slash [OF Suc.prems(1) Suc.prems(3) \<open>p ! i = CHR ''/''\<close> True]
        have "loop_post p start (parse_loop p start i v)"
          using Suc.IH s l by blast
        with False \<open>p ! i = CHR ''/''\<close> True show ?thesis by simp
      next
        case nm: False
        from post_break [OF Suc.prems(1) Suc.prems(3) True nm]
        show ?thesis using False True nm by simp
      qed
    next
      case c: False
      from inv_step_char [OF Suc.prems(1) Suc.prems(3) c]
      have "loop_post p start (parse_loop p start i (mark_dot (p ! i) i (mark_end i v)))"
        using Suc.IH s l by blast
      with False c show ?thesis by simp
    qed
  qed
qed

lemma seg_split:
  assumes "a \<le> b" and "b \<le> c" and "c \<le> length p"
  shows "seg p a c = seg p a b @ seg p b c"
proof -
  have "take c p = take b p @ drop b (take c p)"
    using assms(2) by (metis append_take_drop_id min.absorb1 take_take)
  then have "drop a (take c p) = drop a (take b p @ drop b (take c p))" by simp
  also have "\<dots> = drop a (take b p) @ drop b (take c p)"
    using assms by simp
  finally show ?thesis by (simp add: seg_def)
qed

lemma seg_whole:
  assumes "s \<le> e" and "e \<le> length p"
  shows "p = take s p @ seg p s e @ drop e p"
proof -
  have "take e p = take s p @ seg p s e"
    using assms(1) unfolding seg_def by (metis append_take_drop_id min.absorb1 take_take)
  then show ?thesis by (metis append.assoc append_take_drop_id)
qed

lemma seg_length: "s \<le> e \<Longrightarrow> e \<le> length p \<Longrightarrow> length (seg p s e) = e - s"
  by (simp add: seg_def)

lemma last_component_seg:
  assumes "set (drop e p) \<subseteq> {CHR ''/''}" and "CHR ''/'' \<notin> set (seg p s e)"
    and "s < e" and "e \<le> length p" and "s = 0 \<or> p ! (s - 1) = CHR ''/''"
  shows "last_component p = seg p s e"
proof -
  let ?b = "seg p s e"
  have ne: "?b \<noteq> []" using assms(3,4) seg_length [of s e p] by auto
  have p: "rev p = rev (drop e p) @ rev ?b @ rev (take s p)"
    using seg_whole [of s e p] assms(3,4) by (metis less_imp_le rev_append append.assoc)
  have d1: "dropWhile (\<lambda>c. c = CHR ''/'') (rev p) = dropWhile (\<lambda>c. c = CHR ''/'') (rev ?b @ rev (take s p))"
    unfolding p using assms(1) by (intro dropWhile_append2) auto
  have "hd (rev ?b @ rev (take s p)) = last ?b" using ne by (simp add: hd_rev)
  moreover have "last ?b \<noteq> CHR ''/''" using ne assms(2) last_in_set by metis
  ultimately have d2: "dropWhile (\<lambda>c. c = CHR ''/'') (rev ?b @ rev (take s p)) = rev ?b @ rev (take s p)"
    using ne by (simp add: dropWhile_eq_self_iff)
  have t1: "takeWhile (\<lambda>c. c \<noteq> CHR ''/'') (rev ?b @ rev (take s p)) =
      rev ?b @ takeWhile (\<lambda>c. c \<noteq> CHR ''/'') (rev (take s p))"
    using assms(2) by (intro takeWhile_append2) auto
  have t2: "takeWhile (\<lambda>c. c \<noteq> CHR ''/'') (rev (take s p)) = []"
  proof (cases "s = 0")
    case True
    then show ?thesis by simp
  next
    case False
    with assms(5) have "p ! (s - 1) = CHR ''/''" by simp
    moreover have tn: "take s p \<noteq> []" using False assms(3,4) by auto
    moreover have "last (take s p) = p ! (s - 1)"
      using False assms(3,4) by (simp add: last_conv_nth [OF tn])
    ultimately show ?thesis by (simp add: takeWhile_eq_Nil_iff hd_rev)
  qed
  show ?thesis
    by (simp add: last_component_def d1 d2 t1 t2)
qed

lemma last_component_empty:
  assumes "set p \<subseteq> {CHR ''/''}"
  shows "last_component p = []"
proof -
  have "dropWhile (\<lambda>c. c = CHR ''/'') (rev p) = []"
    using assms by auto
  then show ?thesis by (simp only: last_component_def takeWhile.simps rev.simps)
qed

lemma strip_extension_no_dot: "CHR ''.'' \<notin> set b \<Longrightarrow> strip_extension b = b"
  by (simp add: strip_extension_def)

lemma strip_extension_seg:
  assumes "s \<le> d" and "d < e" and "e \<le> length p" and "p ! d = CHR ''.''"
    and "CHR ''.'' \<notin> set (seg p (Suc d) e)"
  shows "strip_extension (seg p s e) = (if d = s then seg p s e else seg p s d)"
proof -
  let ?b = "seg p s e"
  have b: "?b = seg p s d @ CHR ''.'' # seg p (Suc d) e"
    using seg_split [of s d e p] seg_Cons [of d e p] assms by simp
  then have r: "rev ?b = rev (seg p (Suc d) e) @ CHR ''.'' # rev (seg p s d)" by simp
  have "dropWhile (\<lambda>c. c \<noteq> CHR ''.'') (rev ?b) =
      dropWhile (\<lambda>c. c \<noteq> CHR ''.'') (CHR ''.'' # rev (seg p s d))"
    unfolding r using assms(5) by (intro dropWhile_append2) auto
  then have st: "rev (tl (dropWhile (\<lambda>c. c \<noteq> CHR ''.'') (rev ?b))) = seg p s d" by simp
  have dot: "CHR ''.'' \<in> set ?b" by (subst b) simp
  have len: "length (seg p s d) = d - s"
    using assms by (simp add: seg_length)
  show ?thesis
  proof (cases "d = s")
    case True
    then have "seg p s d = []" by (simp add: seg_empty)
    with dot st True show ?thesis by (simp add: strip_extension_def)
  next
    case False
    with len assms(1) have "seg p s d \<noteq> []" by auto
    with dot st False show ?thesis by (simp add: strip_extension_def)
  qed
qed

lemma slice_seg: "0 \<le> x \<Longrightarrow> slice p (int s) x = seg p s (nat x)"
  by (simp add: slice_def seg_def)

lemma all_slash_from_start:
  assumes "p \<noteq> []" and "set (drop (if p ! 0 = CHR ''/'' then 1 else 0) p) \<subseteq> {CHR ''/''}"
  shows "set p \<subseteq> {CHR ''/''}"
proof (cases "p ! 0 = CHR ''/''")
  case True
  from assms(1) have "p = p ! 0 # drop 1 p"
    by (cases p) simp_all
  then have "set p = insert (p ! 0) (set (drop 1 p))"
    by (metis list.simps(15))
  with True assms(2) show ?thesis by auto
next
  case False
  with assms(2) show ?thesis by simp
qed

lemma dotdot_seg:
  assumes "e = s + 2" and "e \<le> length p" and "p ! s = CHR ''.''" and "p ! Suc s = CHR ''.''"
  shows "seg p s e = ''..''"
  using assms by (simp add: seg_Cons seg_empty)

lemma parse_name_shape:
  assumes "p \<noteq> []"
  shows "name_shape p (parse_name p)"
proof -
  define start :: nat where "start = (if p ! 0 = CHR ''/'' then 1 else 0)"
  define v where "v = parse_loop p start (length p) parse_init"
  have st: "start = 0 \<or> start = 1 \<and> p ! 0 = CHR ''/''"
    by (simp add: start_def)
  have sl: "start \<le> length p"
    using assms by (cases p) (simp_all add: start_def)
  have post: "loop_post p start v"
    unfolding v_def by (rule parse_loop_post [OF st loop_inv_init sl]) simp
  show ?thesis
  proof (cases "endIdx v = -1")
    case True
    with post have "set (drop start p) \<subseteq> {CHR ''/''}" by (simp add: loop_post_def)
    then have "set p \<subseteq> {CHR ''/''}"
      using all_slash_from_start [OF assms] by (simp add: start_def)
    moreover have "parse_name p = []"
      using True by (simp only: parse_name_def Let_def v_def start_def assms if_False)
        (simp add: v_def [symmetric] start_def [symmetric])
    ultimately show ?thesis by (simp add: name_shape_def)
  next
    case False
    define s where "s = base_start start v"
    define e where "e = nat (endIdx v)"
    from False post have f: "0 \<le> startPart v" "int s < endIdx v" "endIdx v \<le> int (length p)"
      "set (drop e p) \<subseteq> {CHR ''/''}" "CHR ''/'' \<notin> set (seg p s e)"
      "s = 0 \<or> p ! (s - 1) = CHR ''/''" "dots_ok p s e v"
      by (simp_all add: loop_post_def s_def e_def)
    from f have se: "s < e" "e \<le> length p" "endIdx v = int e" by (simp_all add: e_def)
    have s': "(if startPart v = 0 \<and> p ! 0 = CHR ''/'' then 1 else startPart v) = int s"
      using f(1) by (simp add: s_def base_start_def start_def)
    have sp: "startPart v = int s \<or> startPart v = 0"
      using f(1) by (simp add: s_def base_start_def)
    have pn0: "parse_name p =
        (if endIdx v \<noteq> -1 then
           (if startDot v = -1 \<or> preDotState v = 0 \<or>
               (preDotState v = 1 \<and> startDot v = endIdx v - 1 \<and> startDot v = startPart v + 1)
            then slice p (if startPart v = 0 \<and> p ! 0 = CHR ''/'' then 1 else startPart v) (endIdx v)
            else slice p (if startPart v = 0 \<and> p ! 0 = CHR ''/'' then 1 else startPart v)
                   (startDot v))
         else [])"
      by (simp only: parse_name_def Let_def v_def start_def assms if_False)
    have d0: "startDot v \<noteq> -1 \<Longrightarrow> 0 \<le> startDot v"
      using f(7) by (simp add: dots_ok_def)
    have sl1: "slice p (int s) (endIdx v) = seg p s e"
      using se by (simp add: slice_seg)
    have sl2: "startDot v \<noteq> -1 \<Longrightarrow> slice p (int s) (startDot v) = seg p s (nat (startDot v))"
      using d0 by (simp add: slice_seg)
    have pn: "parse_name p =
        (if startDot v = -1 \<or> preDotState v = 0 \<or>
            (preDotState v = 1 \<and> startDot v = endIdx v - 1 \<and> startDot v = startPart v + 1)
         then seg p s e else seg p s (nat (startDot v)))"
      unfolding pn0 s' using False sl1 sl2 by simp
    have shape: "(parse_name p = seg p s e \<and>
             (CHR ''.'' \<notin> set (seg p s e) \<or>
              (p ! s = CHR ''.'' \<and> CHR ''.'' \<notin> set (seg p (Suc s) e)) \<or>
              seg p s e = ''..'')) \<or>
          (\<exists>d. s < d \<and> d < e \<and> p ! d = CHR ''.'' \<and> CHR ''.'' \<notin> set (seg p (Suc d) e) \<and>
             parse_name p = seg p s d)"
    proof (cases "startDot v = -1")
      case True
      with f(7) have "CHR ''.'' \<notin> set (seg p s e)" by (simp add: dots_ok_def)
      with True pn show ?thesis by simp
    next
      case nd: False
      define d where "d = nat (startDot v)"
      from nd f(7) have g: "int s \<le> startDot v" "startDot v < int e" "p ! d = CHR ''.''"
        "CHR ''.'' \<notin> set (seg p (Suc d) e)" "preDotState v = 0 \<longleftrightarrow> startDot v = int s"
        "preDotState v = 1 \<longleftrightarrow> startDot v \<noteq> int s \<and> p ! s = CHR ''.''"
        by (simp_all add: dots_ok_def d_def)
      from g(1,2) have dd: "startDot v = int d" "s \<le> d" "d < e" by (simp_all add: d_def)
      show ?thesis
      proof (cases "preDotState v = 0")
        case True
        with g(5) dd have "d = s" by simp
        with True pn g(3,4) show ?thesis by simp
      next
        case p0: False
        with g(5) dd have ds: "s < d" by auto
        show ?thesis
        proof (cases "preDotState v = 1 \<and> startDot v = endIdx v - 1 \<and> startDot v = startPart v + 1")
          case True
          with g(6) have ps: "p ! s = CHR ''.''" by simp
          from True dd se have de: "e = d + 1" by simp
          from True dd sp ds have "d = s + 1" by auto
          with de ps g(3) se have "seg p s e = ''..''"
            by (intro dotdot_seg) simp_all
          with True pn show ?thesis by simp
        next
          case False
          with nd p0 pn have "parse_name p = seg p s d" by (simp add: d_def)
          with ds dd g(3,4) show ?thesis by blast
        qed
      qed
    qed
    show ?thesis
      unfolding name_shape_def using se(1,2) f(4,5,6) shape by blast
  qed
qed

lemma parse_name_cases [consumes 1, case_names empty whole ext]:
  assumes "p \<noteq> []"
  obtains "set p \<subseteq> {CHR ''/''}" and "parse_name p = []"
  | s e where "s < e" and "e \<le> length p" and "set (drop e p) \<subseteq> {CHR ''/''}"
      and "CHR ''/'' \<notin> set (seg p s e)" and "s = 0 \<or> p ! (s - 1) = CHR ''/''"
      and "parse_name p = seg p s e"
      and "CHR ''.'' \<notin> set (seg p s e) \<or>
           (p ! s = CHR ''.'' \<and> CHR ''.'' \<notin> set (seg p (Suc s) e)) \<or> seg p s e = ''..''"
  | s e d where "s < e" and "e \<le> length p" and "set (drop e p) \<subseteq> {CHR ''/''}"
      and "CHR ''/'' \<notin> set (seg p s e)" and "s = 0 \<or> p ! (s - 1) = CHR ''/''"
      and "s < d" and "d < e" and "p ! d = CHR ''.''"
      and "CHR ''.'' \<notin> set (seg p (Suc d) e)" and "parse_name p = seg p s d"
  using parse_name_shape [OF assms] unfolding name_shape_def by blast

lemma seg_prefix_set:
  assumes "s \<le> d" and "d \<le> e" and "e \<le> length p"
  shows "set (seg p s d) \<subseteq> set (seg p s e)"
  using seg_split [OF assms] by auto

lemma parse_name_no_slash: "CHR ''/'' \<notin> set (parse_name p)"
proof (cases "p = []")
  case True
  then show ?thesis by (simp add: parse_name_def)
next
  case False
  then show ?thesis
  proof (cases rule: parse_name_cases)
    case empty
    then show ?thesis by simp
  next
    case (whole s e)
    then show ?thesis by simp
  next
    case (ext s e d)
    from seg_prefix_set [of s d e p] ext have "set (seg p s d) \<subseteq> set (seg p s e)" by simp
    with ext show ?thesis by auto
  qed
qed

lemma parse_name_base_label:
  assumes "last_component p \<noteq> ''..''"
  shows "parse_name p = base_label p"
proof (cases "p = []")
  case True
  then show ?thesis
    by (simp add: parse_name_def base_label_def last_component_def strip_extension_def)
next
  case False
  then show ?thesis
  proof (cases rule: parse_name_cases)
    case empty
    then show ?thesis
      by (simp add: base_label_def last_component_empty strip_extension_def)
  next
    case (whole s e)
    have lc: "last_component p = seg p s e"
      by (rule last_component_seg [OF whole(3,4,1,2,5)])
    from whole(7) assms lc consider "CHR ''.'' \<notin> set (seg p s e)"
      | "p ! s = CHR ''.''" "CHR ''.'' \<notin> set (seg p (Suc s) e)"
      by auto
    then have "strip_extension (seg p s e) = seg p s e"
    proof cases
      case 1
      then show ?thesis by (rule strip_extension_no_dot)
    next
      case 2
      from strip_extension_seg [of s s e p] whole(1,2) 2 show ?thesis by simp
    qed
    with whole(6) lc show ?thesis by (simp add: base_label_def)
  next
    case (ext s e d)
    have lc: "last_component p = seg p s e"
      by (rule last_component_seg [OF ext(3,4,1,2,5)])
    from strip_extension_seg [of s d e p] ext
    have "strip_extension (seg p s e) = seg p s d" by simp
    with ext(10) lc show ?thesis by (simp add: base_label_def)
  qed
qed

lemma no_slash_start:
  assumes "CHR ''/'' \<notin> set p" and "s < length p" and "s = 0 \<or> p ! (s - 1) = CHR ''/''"
  shows "s = 0"
proof (rule ccontr)
  assume "s \<noteq> 0"
  with assms have "p ! (s - 1) = CHR ''/''" "s - 1 < length p" by auto
  then have "CHR ''/'' \<in> set p" by (metis nth_mem)
  with assms(1) show False by simp
qed

lemma no_slash_end:
  assumes "CHR ''/'' \<notin> set p" and "e \<le> length p" and "set (drop e p) \<subseteq> {CHR ''/''}"
  shows "e = length p"
proof -
  have "set (drop e p) \<subseteq> set p" by (rule set_drop_subset)
  with assms(1,3) have "drop e p = []" by (cases "drop e p") auto
  with assms(2) show ?thesis by simp
qed

lemma unique_name_differs:
  assumes "CHR ''/'' \<notin> set token"
  shows "uniqueFilename p token \<noteq> p"
proof
  assume eq: "uniqueFilename p token = p"
  let ?n = "parse_name p"
  have u: "p = ?n @ CHR ''-'' # token @ ''.webp''"
    using eq by (simp add: uniqueFilename_def)
  have len: "length p = length ?n + length token + 6"
    by (subst u) simp
  have ns: "CHR ''/'' \<notin> set p"
    by (subst u) (use assms parse_name_no_slash in auto)
  from len have ne: "p \<noteq> []" by auto
  have at: "p ! length ?n = CHR ''-''"
    by (subst u) (simp add: nth_append)
  from ne show False
  proof (cases rule: parse_name_cases)
    case empty
    with ns ne show False by (cases p) auto
  next
    case (whole s e)
    have "s = 0" using no_slash_start [OF ns _ whole(5)] whole(1,2) by simp
    moreover have "e = length p" by (rule no_slash_end [OF ns whole(2,3)])
    ultimately have "length ?n = length p" using whole(6) by (simp add: seg_def)
    with len show False by simp
  next
    case (ext s e d)
    have "s = 0" using no_slash_start [OF ns _ ext(5)] ext(1,2) by simp
    then have "length ?n = d" using ext by (simp add: seg_length)
    with at ext(8) show False by simp
  qed
qed

section \<open>The origin gate\<close>

lemma empty_not_allowed: "[] \<notin> set allowedDomainsForCRUD"
  by (simp add: allowedDomainsForCRUD_def)

lemma checkDomain_mutating:
  "method req \<in> {''POST'', ''DELETE'', ''PUT'', ''PATCH''} \<Longrightarrow>
   checkDomain req =
     (if \<exists>orig. origin req = Some orig \<and> orig \<in> set allowedDomainsForCRUD then None
      else Some forbidden)"
  using empty_not_allowed by (auto simp: checkDomain_def split: option.splits)

lemma handle_gated_delete:
  assumes "passes_gate req" and "method req = ''DELETE''" and "target req = Delete name"
  shows "handle e token f req = delete_handler e f name"
  using assms empty_not_allowed
  by (auto simp: handle_def routes_def passes_gate_def checkDomain_def split: option.splits)

lemma handle_gated_upload:
  assumes "passes_gate req" and "method req = ''POST''" and "target req = Upload"
  shows "handle e token f req =
           (case upload_single e req of
              Inl err \<Rightarrow> (f, error_middleware err)
            | Inr file \<Rightarrow> upload_handler e token f req file)"
  using assms empty_not_allowed
  by (auto simp: handle_def routes_def passes_gate_def checkDomain_def split: option.splits)

text \<open>What comes before the gate: the body parser and the decoding of the parameter.\<close>

lemma handle_json_error:
  assumes "method req \<noteq> ''OPTIONS''" and "json_error req = Some m"
    and "target req \<noteq> ImagesMount" and "\<forall>name. target req \<noteq> Images name"
  shows "handle e token f req = (f, \<lparr>status = 400, body = Message m\<rparr>)"
  using assms by (cases "target req") (simp_all add: handle_def error_middleware_def)

lemma handle_undecodable:
  assumes "method req \<noteq> ''OPTIONS''" and "json_error req = None"
    and "target req = DeleteUndecodable raw"
  shows "handle e token f req =
           (f, \<lparr>status = 400,
                body = Message (''Failed to decode param '' @ [CHR 0x27] @ raw @ [CHR 0x27])\<rparr>)"
  using assms by (simp add: handle_def routes_def error_middleware_def decode_failed_def)

text \<open>
  C1, as the specification states it, fails: the JSON body parser is installed before the
  routes, so a POST /upload without an origin whose JSON body does not parse is answered
  400 by the error-handling middleware, and the gate never runs; and a DELETE /delete/%FF
  without an origin is answered 400 the same way, because the parameter fails to decode
  while the route is matched.
\<close>

theorem origin_gate_counterexample:
  "origin (example_request\<lparr>method := ''POST'', target := Upload,
       json_error := Some ''Unexpected end of JSON input''\<rparr>) = None \<and>
   snd (handle example_env ''t'' (startup_fs example_env)
     (example_request\<lparr>method := ''POST'', target := Upload,
        json_error := Some ''Unexpected end of JSON input''\<rparr>))
     = \<lparr>status = 400, body = Message ''Unexpected end of JSON input''\<rparr> \<and>
   origin (example_request\<lparr>method := ''DELETE'', target := DeleteUndecodable ''%FF''\<rparr>) = None \<and>
   status (snd (handle example_env ''t'' (startup_fs example_env)
     (example_request\<lparr>method := ''DELETE'', target := DeleteUndecodable ''%FF''\<rparr>))) = 400"
  by (simp add: handle_def routes_def example_request_def error_middleware_def decode_failed_def)

text \<open>
  C1, amended: for every POST /upload or DELETE /delete/x request that reaches its route
  (the JSON body parser lets it through and the parameter of a delete percent-decodes), if
  the origin is absent or equals no entry of the allow-list the response is the forbidden
  failure (403 with its message) and the filesystem is untouched, whatever the payload; if
  the origin equals an entry, the gate calls \<open>next()\<close> and the response is the one of the
  rest of the route. A request whose JSON body the parser refuses, or whose delete
  parameter does not percent-decode, is answered 400 by the error-handling middleware
  before the gate runs, whatever its origin.
\<close>

theorem origin_gate:
  assumes "(method req = ''POST'' \<and> target req = Upload) \<or>
           (method req = ''DELETE'' \<and> (target req = Delete x \<or> target req = DeleteUndecodable raw))"
  shows "(\<forall>m. json_error req = Some m \<longrightarrow>
            handle e token f req = (f, \<lparr>status = 400, body = Message m\<rparr>)) \<and>
         (json_error req = None \<and> target req = DeleteUndecodable raw \<longrightarrow>
            handle e token f req =
              (f, \<lparr>status = 400,
                   body = Message (''Failed to decode param '' @ [CHR 0x27] @ raw @ [CHR 0x27])\<rparr>)) \<and>
         (json_error req = None \<and> target req \<noteq> DeleteUndecodable raw \<longrightarrow>
            ((\<forall>orig. origin req = Some orig \<longrightarrow> orig \<notin> set allowedDomainsForCRUD) \<longrightarrow>
               handle e token f req = (f, forbidden) \<and> status forbidden = 403) \<and>
            ((\<exists>orig. origin req = Some orig \<and> orig \<in> set allowedDomainsForCRUD) \<longrightarrow>
               checkDomain req = None \<and>
               handle e token f req =
                 (if target req = Upload then
                    (case upload_single e req of
                       Inl err \<Rightarrow> (f, error_middleware err)
                     | Inr file \<Rightarrow> upload_handler e token f req file)
                  else delete_handler e f x)))"
proof -
  from assms have m: "method req \<in> {''POST'', ''DELETE'', ''PUT'', ''PATCH''}" by auto
  from assms have no: "method req \<noteq> ''OPTIONS''" by auto
  from assms have t: "target req \<noteq> ImagesMount" "\<forall>name. target req \<noteq> Images name" by auto
  have a: "\<forall>m. json_error req = Some m \<longrightarrow>
      handle e token f req = (f, \<lparr>status = 400, body = Message m\<rparr>)"
    using handle_json_error [OF no _ t] by blast
  have b: "json_error req = None \<and> target req = DeleteUndecodable raw \<longrightarrow>
      handle e token f req =
        (f, \<lparr>status = 400,
             body = Message (''Failed to decode param '' @ [CHR 0x27] @ raw @ [CHR 0x27])\<rparr>)"
    using handle_undecodable [OF no] by blast
  have c: "json_error req = None \<and> target req \<noteq> DeleteUndecodable raw \<longrightarrow>
            ((\<forall>orig. origin req = Some orig \<longrightarrow> orig \<notin> set allowedDomainsForCRUD) \<longrightarrow>
               handle e token f req = (f, forbidden) \<and> status forbidden = 403) \<and>
            ((\<exists>orig. origin req = Some orig \<and> orig \<in> set allowedDomainsForCRUD) \<longrightarrow>
               checkDomain req = None \<and>
               handle e token f req =
                 (if target req = Upload then
                    (case upload_single e req of
                       Inl err \<Rightarrow> (f, error_middleware err)
                     | Inr file \<Rightarrow> upload_handler e token f req file)
                  else delete_handler e f x))"
    using assms no checkDomain_mutating [OF m]
    by (auto simp: handle_def routes_def forbidden_def)
  from a b c show ?thesis by blast
qed

theorem origin_gate_witness:
  "handle example_env ''t'' (startup_fs example_env)
     (example_request\<lparr>method := ''POST'', target := Upload, origin := Some ''http://evil.example''\<rparr>)
     = (startup_fs example_env, forbidden) \<and>
   handle example_env ''t'' (startup_fs example_env)
     (example_request\<lparr>method := ''DELETE'', target := Delete ''a..b'',
        origin := Some ''http://localhost:5500''\<rparr>)
     = (startup_fs example_env, invalid_name) \<and>
   handle example_env ''t'' (startup_fs example_env)
     (example_request\<lparr>method := ''POST'', target := Upload,
        origin := Some ''http://localhost:5500'', json_error := Some ''Unexpected token''\<rparr>)
     = (startup_fs example_env, \<lparr>status = 400, body = Message ''Unexpected token''\<rparr>) \<and>
   handle example_env ''t'' (startup_fs example_env)
     (example_request\<lparr>method := ''DELETE'', target := DeleteUndecodable ''%FF'',
        origin := Some ''http://localhost:5500''\<rparr>)
     = (startup_fs example_env, \<lparr>status = 400, body = Message (''Failed to decode param '' @ [CHR 0x27] @ ''%FF'' @ [CHR 0x27])\<rparr>)"
  using origin_gate [of "example_request\<lparr>method := ''POST'', target := Upload,
        origin := Some ''http://evil.example''\<rparr>" "''x''" "''r''" example_env "''t''"
        "startup_fs example_env"]
    origin_gate [of "example_request\<lparr>method := ''DELETE'', target := Delete ''a..b'',
        origin := Some ''http://localhost:5500''\<rparr>" "''a..b''" "''r''" example_env "''t''"
        "startup_fs example_env"]
    origin_gate [of "example_request\<lparr>method := ''POST'', target := Upload,
        origin := Some ''http://localhost:5500'', json_error := Some ''Unexpected token''\<rparr>"
        "''x''" "''r''" example_env "''t''" "startup_fs example_env"]
    origin_gate [of "example_request\<lparr>method := ''DELETE'', target := DeleteUndecodable ''%FF'',
        origin := Some ''http://localhost:5500''\<rparr>" "''x''" "''%FF''" example_env "''t''"
        "startup_fs example_env"]
  by (simp add: example_request_def allowedDomainsForCRUD_def delete_handler_def)

section \<open>Deleting\<close>

lemma delete_handler_invalid:
  "js_includes name ''..'' \<or> CHR ''/'' \<in> set name \<Longrightarrow> delete_handler e f name = (f, invalid_name)"
  by (auto simp: delete_handler_def js_includes_single)

lemma handle_delete_target_fs:
  assumes "delete_handler e f name = (f, r)" and "target req = Delete name"
  shows "fst (handle e token f req) = f"
  using assms by (auto simp: handle_def routes_def split: option.splits)

lemma delete_handler_valid:
  assumes "\<not> js_includes name ''..''" and "\<not> js_includes name ''/''"
  shows "delete_handler e f name =
           (case unlink e f (path_join (imagesDir e) name) of
              (f1, Threw m) \<Rightarrow> (f1, error_middleware (PlainError m))
            | (f1, Failed err) \<Rightarrow>
                if code err = ''ENOENT'' then (f1, not_found) else (f1, delete_failed)
            | (f1, Removed) \<Rightarrow> (f1, deleted))"
  using assms by (simp add: delete_handler_def)

lemma unlink_missing:
  assumes "CHR 0x00 \<notin> set p" and "unlink_fault e p = None" and "entries f p = None"
  shows "unlink e f p = (f\<lparr>trace := trace f @ [Unlink p]\<rparr>, Failed enoent)"
  using assms by (simp add: unlink_def)

lemma unlink_entries:
  "entries (fst (unlink e f p)) =
     (if snd (unlink e f p) = Removed then (entries f)(p := None) else entries f)"
  by (auto simp: unlink_def Let_def split: option.splits entry.splits)

lemma unlink_removed:
  assumes "snd (unlink e f p) = Removed"
  shows "CHR 0x00 \<notin> set p \<and> unlink_fault e p = None"
  using assms by (auto simp: unlink_def Let_def split: if_splits option.splits entry.splits)

lemma unlink_threw:
  "snd (unlink e f p) = Threw m \<Longrightarrow> fst (unlink e f p) = f"
  by (auto simp: unlink_def Let_def split: if_splits option.splits entry.splits)

lemma js_includes_set: "js_includes s sub \<Longrightarrow> set sub \<subseteq> set s"
  by (auto simp: js_includes_iff)

lemma last_piece_length:
  assumes "CHR ''/'' \<notin> set n"
  shows "takeWhile (\<lambda>c. c \<noteq> CHR ''/'') (rev (d @ ''/'' @ n)) = rev n"
proof -
  have "rev (d @ ''/'' @ n) = rev n @ CHR ''/'' # rev d" by simp
  moreover have "takeWhile (\<lambda>c. c \<noteq> CHR ''/'') (rev n @ CHR ''/'' # rev d) =
      takeWhile (\<lambda>c. c \<noteq> CHR ''/'') (rev n)"
    by (rule takeWhile_tail) simp
  moreover have "takeWhile (\<lambda>c. c \<noteq> CHR ''/'') (rev n) = rev n"
    using assms by auto
  ultimately show ?thesis by simp
qed

lemma long_name_fails:
  assumes "CHR ''/'' \<notin> set n" and "CHR ''.'' \<notin> set n" and "CHR 0x00 \<notin> set n"
    and "255 < length n"
  shows "\<not> js_includes n ''..'' \<and> \<not> js_includes n ''/'' \<and>
         entries (startup_fs name_max_env) (path_join (imagesDir name_max_env) n) = None \<and>
         snd (handle name_max_env ''t'' (startup_fs name_max_env)
           (example_request\<lparr>method := ''DELETE'', target := Delete n,
              origin := Some ''http://localhost:5500''\<rparr>)) = delete_failed"
proof -
  let ?req = "example_request\<lparr>method := ''DELETE'', target := Delete n,
        origin := Some ''http://localhost:5500''\<rparr>"
  let ?dir = "''/srv/cdn/public/images''"
  have v: "\<not> js_includes n ''..''" "\<not> js_includes n ''/''"
    using js_includes_set [of n "''..''"] js_includes_set [of n "''/''"] assms(1,2) by auto
  from assms(4) have "n \<noteq> []" by auto
  moreover from assms(2) have "n \<noteq> ''.''" by auto
  ultimately have pj: "path_join ?dir n = ?dir @ ''/'' @ n" by (simp add: path_join_def)
  have d: "imagesDir name_max_env = ?dir" by (simp add: name_max_env_def example_env_def)
  have nul: "CHR 0x00 \<notin> set (?dir @ ''/'' @ n)" using assms(3) by simp
  have "takeWhile (\<lambda>c. c \<noteq> CHR ''/'') (rev (?dir @ ''/'' @ n)) = rev n"
    by (rule last_piece_length [OF assms(1)])
  then have fl: "unlink_fault name_max_env (?dir @ ''/'' @ n) = Some enametoolong"
    using assms(4) by (simp add: name_max_env_def)
  have ab: "entries (startup_fs name_max_env) (?dir @ ''/'' @ n) = None"
    by (simp add: startup_fs_def d)
  have u: "unlink name_max_env (startup_fs name_max_env) (?dir @ ''/'' @ n) =
      ((startup_fs name_max_env)\<lparr>trace := trace (startup_fs name_max_env) @
         [Unlink (?dir @ ''/'' @ n)]\<rparr>, Failed enametoolong)"
    using nul fl unfolding unlink_def Let_def by simp
  have g: "passes_gate ?req"
    by (simp add: passes_gate_def example_request_def allowedDomainsForCRUD_def)
  have "handle name_max_env ''t'' (startup_fs name_max_env) ?req =
      delete_handler name_max_env (startup_fs name_max_env) n"
    by (rule handle_gated_delete [OF g]) simp_all
  also have "\<dots> = (case unlink name_max_env (startup_fs name_max_env) (?dir @ ''/'' @ n) of
              (f1, Threw m) \<Rightarrow> (f1, error_middleware (PlainError m))
            | (f1, Failed err) \<Rightarrow>
                if code err = ''ENOENT'' then (f1, not_found) else (f1, delete_failed)
            | (f1, Removed) \<Rightarrow> (f1, deleted))"
    unfolding delete_handler_valid [OF v] d pj ..
  finally have "snd (handle name_max_env ''t'' (startup_fs name_max_env) ?req) = delete_failed"
    unfolding u by (simp add: enametoolong_def)
  with v ab show ?thesis unfolding d pj by simp
qed

text \<open>
  C3: a delete name with a parent-directory segment or with a slash is answered with the
  validation failure 400, which is not the not-found failure; the handler returns the
  filesystem as it got it, entries and trace, so no removal is attempted and no call
  reaches the filesystem, whoever sends the request; a request that passes the gate gets
  exactly this answer.
\<close>

theorem delete_rejects_traversal:
  assumes "parent_segment name \<or> CHR ''/'' \<in> set name"
  shows "delete_handler e f name = (f, invalid_name) \<and>
         status invalid_name = 400 \<and> invalid_name \<noteq> not_found \<and>
         (\<forall>req token. target req = Delete name \<longrightarrow> fst (handle e token f req) = f) \<and>
         (\<forall>req token. passes_gate req \<and> method req = ''DELETE'' \<and> target req = Delete name \<longrightarrow>
            handle e token f req = (f, invalid_name))"
proof -
  from assms have bad: "js_includes name ''..'' \<or> CHR ''/'' \<in> set name"
    using parent_segment_includes by blast
  have d: "delete_handler e f name = (f, invalid_name)"
    by (rule delete_handler_invalid [OF bad])
  have "status invalid_name = 400" "invalid_name \<noteq> not_found"
    by (simp_all add: invalid_name_def not_found_def)
  moreover have "\<forall>req token. target req = Delete name \<longrightarrow> fst (handle e token f req) = f"
    using handle_delete_target_fs [OF d] by blast
  moreover have "\<forall>req token. passes_gate req \<and> method req = ''DELETE'' \<and>
      target req = Delete name \<longrightarrow> handle e token f req = (f, invalid_name)"
    using handle_gated_delete d by metis
  ultimately show ?thesis using d by blast
qed

theorem delete_rejects_traversal_witness:
  "parent_segment ''../../etc/passwd'' \<and>
   handle example_env ''t'' (startup_fs example_env)
     (example_request\<lparr>method := ''DELETE'', target := Delete ''../../etc/passwd'',
        origin := Some ''http://127.0.0.1:5500''\<rparr>)
     = (startup_fs example_env, invalid_name)"
proof -
  have p: "parent_segment ''../../etc/passwd''"
    by (simp add: parent_segment_def)
  have g: "passes_gate (example_request\<lparr>method := ''DELETE'',
      target := Delete ''../../etc/passwd'', origin := Some ''http://127.0.0.1:5500''\<rparr>)"
    by (simp add: passes_gate_def example_request_def allowedDomainsForCRUD_def)
  show ?thesis
    using p g delete_rejects_traversal [of "''../../etc/passwd''" example_env
        "startup_fs example_env"]
    by simp
qed

text \<open>
  C6, as the specification states it, fails: on a filesystem whose names hold at most 255
  bytes, a valid name of 300 letters has no entry in the store, and the gated DELETE is
  answered with the processing failure 500, because the error of the removal is
  ENAMETOOLONG and only ENOENT is answered 404.
\<close>

theorem delete_outcomes_counterexample:
  "\<not> js_includes (replicate 300 (CHR ''a'')) ''..'' \<and>
   \<not> js_includes (replicate 300 (CHR ''a'')) ''/'' \<and>
   entries (startup_fs name_max_env)
     (path_join (imagesDir name_max_env) (replicate 300 (CHR ''a''))) = None \<and>
   snd (handle name_max_env ''t'' (startup_fs name_max_env)
     (example_request\<lparr>method := ''DELETE'', target := Delete (replicate 300 (CHR ''a'')),
        origin := Some ''http://localhost:5500''\<rparr>)) = delete_failed \<and>
   status delete_failed = 500"
proof -
  have "status delete_failed = 500" by (simp add: delete_failed_def)
  with long_name_fails [of "replicate 300 (CHR ''a'')"] show ?thesis by simp
qed

text \<open>
  C6, amended: for a valid name without a NUL byte sent through the gate, a store entry that
  does not exist gives the not-found failure 404 and leaves the entries as they are,
  provided the filesystem raises no error of its own on that path (such as a name longer
  than it allows); a removal error is 404 when its code is ENOENT and the processing
  failure 500 otherwise; a removal that succeeds gives 200 with the status message, the
  entry is gone, and the same request again gives 404.
\<close>

theorem delete_outcomes:
  assumes "\<not> js_includes name ''..''" and "\<not> js_includes name ''/''"
    and "passes_gate req" and "method req = ''DELETE''" and "target req = Delete name"
  shows "(CHR 0x00 \<notin> set (path_join (imagesDir e) name) \<and>
          unlink_fault e (path_join (imagesDir e) name) = None \<and>
          entries f (path_join (imagesDir e) name) = None \<longrightarrow>
            snd (handle e token f req) = not_found \<and>
            entries (fst (handle e token f req)) = entries f) \<and>
         (\<forall>err. snd (unlink e f (path_join (imagesDir e) name)) = Failed err \<longrightarrow>
            snd (handle e token f req) =
              (if code err = ''ENOENT'' then not_found else delete_failed) \<and>
            entries (fst (handle e token f req)) = entries f) \<and>
         (snd (unlink e f (path_join (imagesDir e) name)) = Removed \<longrightarrow>
            snd (handle e token f req) = deleted \<and>
            entries (fst (handle e token f req)) (path_join (imagesDir e) name) = None \<and>
            snd (handle e token (fst (handle e token f req)) req) = not_found) \<and>
         status not_found = 404 \<and> status delete_failed = 500 \<and> status deleted = 200"
proof -
  let ?p = "path_join (imagesDir e) name"
  have h: "handle e token g req =
           (case unlink e g ?p of
              (f1, Threw m) \<Rightarrow> (f1, error_middleware (PlainError m))
            | (f1, Failed err) \<Rightarrow>
                if code err = ''ENOENT'' then (f1, not_found) else (f1, delete_failed)
            | (f1, Removed) \<Rightarrow> (f1, deleted))" for g
    using handle_gated_delete [OF assms(3-5)] delete_handler_valid [OF assms(1,2)] by simp
  have a: "snd (handle e token g req) = not_found \<and> entries (fst (handle e token g req)) = entries g"
    if "CHR 0x00 \<notin> set ?p" "unlink_fault e ?p = None" "entries g ?p = None" for g
    using unlink_missing [OF that] by (simp add: h enoent_def)
  have b: "snd (handle e token f req) = (if code err = ''ENOENT'' then not_found else delete_failed) \<and>
           entries (fst (handle e token f req)) = entries f"
    if "snd (unlink e f ?p) = Failed err" for err
    using that unlink_entries [of e f ?p] by (cases "unlink e f ?p") (auto simp: h)
  have c1: "snd (handle e token f req) = deleted \<and> entries (fst (handle e token f req)) ?p = None"
    if "snd (unlink e f ?p) = Removed"
    using that unlink_entries [of e f ?p] by (cases "unlink e f ?p") (auto simp: h)
  have c: "snd (handle e token f req) = deleted \<and>
           entries (fst (handle e token f req)) ?p = None \<and>
           snd (handle e token (fst (handle e token f req)) req) = not_found"
    if r: "snd (unlink e f ?p) = Removed"
    using c1 [OF r] unlink_removed [OF r] a [of "fst (handle e token f req)"] by simp
  have "status not_found = 404 \<and> status delete_failed = 500 \<and> status deleted = 200"
    by (simp add: not_found_def delete_failed_def deleted_def)
  with a [of f] b c show ?thesis by blast
qed

theorem delete_outcomes_witness:
  "snd (handle example_env ''t'' (startup_fs example_env)
     (example_request\<lparr>method := ''DELETE'', target := Delete ''gone.webp'',
        origin := Some ''http://localhost:5500''\<rparr>)) = not_found \<and>
   snd (handle example_env ''t''
     \<lparr>entries = [''/srv/cdn/public/images'' \<mapsto> Dir,
                 ''/srv/cdn/public/images/cat.webp'' \<mapsto> File [1, 2, 3]], trace = []\<rparr>
     (example_request\<lparr>method := ''DELETE'', target := Delete ''cat.webp'',
        origin := Some ''http://localhost:5500''\<rparr>)) = deleted"
proof -
  let ?gone = "example_request\<lparr>method := ''DELETE'', target := Delete ''gone.webp'',
      origin := Some ''http://localhost:5500''\<rparr>"
  let ?cat = "example_request\<lparr>method := ''DELETE'', target := Delete ''cat.webp'',
      origin := Some ''http://localhost:5500''\<rparr>"
  let ?f = "\<lparr>entries = [''/srv/cdn/public/images'' \<mapsto> Dir,
                 ''/srv/cdn/public/images/cat.webp'' \<mapsto> File [1, 2, 3]], trace = []\<rparr>"
  have g: "passes_gate ?gone" "passes_gate ?cat"
    by (simp_all add: passes_gate_def example_request_def allowedDomainsForCRUD_def)
  have n: "\<not> js_includes ''gone.webp'' ''..''" "\<not> js_includes ''gone.webp'' ''/''"
    "\<not> js_includes ''cat.webp'' ''..''" "\<not> js_includes ''cat.webp'' ''/''"
    by simp_all
  have m: "CHR 0x00 \<notin> set (path_join (imagesDir example_env) ''gone.webp'') \<and>
      unlink_fault example_env (path_join (imagesDir example_env) ''gone.webp'') = None \<and>
      entries (startup_fs example_env) (path_join (imagesDir example_env) ''gone.webp'') = None"
    by (simp add: startup_fs_def example_env_def path_join_def)
  have u: "snd (unlink example_env ?f (path_join (imagesDir example_env) ''cat.webp'')) = Removed"
    by (simp add: unlink_def example_env_def path_join_def)
  have a: "snd (handle example_env ''t'' (startup_fs example_env) ?gone) = not_found"
    using m delete_outcomes [OF n(1,2) g(1), where f = "startup_fs example_env" and e = example_env
        and token = "''t''"]
    by (simp add: example_request_def)
  have b: "snd (handle example_env ''t'' ?f ?cat) = deleted"
    using u delete_outcomes [OF n(3,4) g(2), where f = ?f and e = example_env and token = "''t''"]
    by (simp add: example_request_def)
  from a b show ?thesis by simp
qed

text \<open>A valid name with a NUL byte never reaches the filesystem: \<open>fs.unlink\<close> throws, and the
  error-handling middleware answers 400 with the message of the exception.\<close>

lemma delete_null_byte:
  assumes "\<not> js_includes name ''..''" and "\<not> js_includes name ''/''"
    and "passes_gate req" and "method req = ''DELETE''" and "target req = Delete name"
    and "CHR 0x00 \<in> set (path_join (imagesDir e) name)"
  shows "handle e token f req =
           (f, \<lparr>status = 400,
                body = Message (null_byte_message (path_join (imagesDir e) name))\<rparr>)"
  using handle_gated_delete [OF assms(3-5)] delete_handler_valid [OF assms(1,2)] assms(6)
  by (simp add: unlink_def error_middleware_def)

section \<open>The upload filter\<close>





section \<open>Uploading\<close>

lemma gate_upload_of: "passes_gate (upload_of name)"
  by (simp add: passes_gate_def upload_of_def example_request_def allowedDomainsForCRUD_def)

lemma upload_single_upload_of:
  "name \<noteq> [] \<Longrightarrow> upload_single e (upload_of name) =
     Inr (Some \<lparr>originalname = name, file_mimetype = ''image/jpeg'', buffer = [0xFF, 0xD8, 0xFF]\<rparr>)"
  by (simp add: upload_single_def upload_of_def example_request_def fileFilter_def
      allowedMimes_def too_large_def fileSize_def)

lemma handle_upload_of:
  "name \<noteq> [] \<Longrightarrow> handle e token f (upload_of name) =
     upload_handler e token f (upload_of name)
       (Some \<lparr>originalname = name, file_mimetype = ''image/jpeg'', buffer = [0xFF, 0xD8, 0xFF]\<rparr>)"
  using handle_gated_upload [OF gate_upload_of, of name e token f]
  by (simp add: upload_single_upload_of) (simp add: upload_of_def)

text \<open>What multer does with the parts: parts without a file change nothing; a result means
  that at most as many files came as were allowed; a file in another field, or one more
  file than allowed, is refused; a single file that passes the filter and the limit is
  accepted.\<close>

lemma multer_no_named:
  "\<forall>p \<in> set ps. \<not> named p \<Longrightarrow>
   multer_single e fld left ferr ps acc = (case ferr of None \<Rightarrow> Inr acc | Some err \<Rightarrow> Inl err)"
  by (induction ps) (simp_all add: named_def)

lemma multer_count:
  "multer_single e fld left ferr ps acc = Inr r \<Longrightarrow> length (filter named ps) \<le> left"
proof (induction ps arbitrary: left acc)
  case Nil
  then show ?case by simp
next
  case (Cons p ps)
  show ?case
  proof (cases "named p")
    case False
    with Cons show ?thesis by (simp add: named_def)
  next
    case True
    with Cons.prems have l: "left \<noteq> 0"
      by (auto simp: named_def split: if_splits)
    from True Cons.prems obtain acc' where "multer_single e fld (left - 1) ferr ps acc' = Inr r"
      by (auto simp: named_def split: if_splits sum.splits bool.splits)
    from Cons.IH [OF this] l True show ?thesis by simp
  qed
qed

lemma multer_some_named:
  assumes "multer_single e fld left ferr ps None = Inr (Some fl)"
  shows "\<exists>p \<in> set ps. named p"
proof (rule ccontr)
  assume "\<not> (\<exists>p \<in> set ps. named p)"
  then have "multer_single e fld left ferr ps None =
      (case ferr of None \<Rightarrow> Inr None | Some err \<Rightarrow> Inl err)"
    using multer_no_named by blast
  with assms show False by (cases ferr) simp_all
qed

lemma multer_other_field:
  assumes "\<forall>q \<in> set ps. \<not> named q" and "named p" and "fieldname p \<noteq> fld"
  shows "multer_single e fld left ferr (ps @ p # qs) acc = Inl limit_unexpected_file"
  using assms by (induction ps) (simp_all add: named_def)

lemma multer_none_left:
  "\<exists>q \<in> set ps. named q \<Longrightarrow> multer_single e fld 0 ferr ps acc = Inl limit_unexpected_file"
  by (induction ps) (auto simp: named_def)

lemma multer_accepts_one:
  assumes "fieldname p = fld" and "fileFilter p = Inr True" and "\<not> too_large e (length (content p))"
    and "0 < left"
  shows "filter named ps = [p] \<Longrightarrow> multer_single e fld left None ps acc = Inr (Some (file_of p))"
proof (induction ps)
  case Nil
  then show ?case by simp
next
  case (Cons q qs)
  show ?case
  proof (cases "named q")
    case False
    with Cons show ?thesis by (simp add: named_def)
  next
    case True
    with Cons.prems have q: "q = p" and r: "filter named qs = []" by simp_all
    from r have "\<forall>x \<in> set qs. \<not> named x" by (simp add: filter_empty_conv)
    from multer_no_named [OF this, of e fld "left - 1" None "Some (file_of p)"]
    show ?thesis using True q assms by (simp add: named_def file_of_def)
  qed
qed

lemma multer_second_file:
  assumes "fieldname p = fld" and "fileFilter p = Inr True" and "\<not> too_large e (length (content p))"
  shows "filter named ps = p # q # rest \<Longrightarrow>
         multer_single e fld 1 ferr ps acc = Inl limit_unexpected_file"
proof (induction ps)
  case Nil
  then show ?case by simp
next
  case (Cons x xs)
  show ?case
  proof (cases "named x")
    case False
    with Cons show ?thesis by (simp add: named_def)
  next
    case True
    with Cons.prems have x: "x = p" and r: "filter named xs = q # rest" by simp_all
    from r have "q \<in> set (filter named xs)" by simp
    then have "\<exists>y \<in> set xs. named y" by auto
    from multer_none_left [OF this] show ?thesis
      using True x assms by (simp add: named_def)
  qed
qed

lemma upload_handler_201:
  "status (snd (upload_handler e token f req fo)) = 201 \<Longrightarrow> fo \<noteq> None"
  by (cases fo) (simp_all add: upload_handler_def)

lemma error_middleware_message:
  "error_middleware err = \<lparr>status = 400, body = Message (err_message err)\<rparr>"
  by (cases err) (simp_all add: error_middleware_def)

text \<open>
  C8, as the specification states it, fails: an upload with no file in the expected field
  but one in the field \<open>avatar\<close> is answered with multer's unexpected-field failure, not with
  the no-file failure; and a form without any file that breaks off is answered with the
  error of the multipart parser.
\<close>

theorem no_file_failure_counterexample:
  "map fieldname (parts (example_request\<lparr>method := ''POST'', target := Upload,
        origin := Some ''http://localhost:5500'',
        parts := [\<lparr>fieldname = ''avatar'', filename = ''cat.jpg'', mimetype = ''image/jpeg'',
                   content = []\<rparr>]\<rparr>)) = [''avatar''] \<and>
   handle example_env ''t'' (startup_fs example_env)
     (example_request\<lparr>method := ''POST'', target := Upload,
        origin := Some ''http://localhost:5500'',
        parts := [\<lparr>fieldname = ''avatar'', filename = ''cat.jpg'', mimetype = ''image/jpeg'',
                   content = []\<rparr>]\<rparr>)
     = (startup_fs example_env, \<lparr>status = 400, body = Message ''Unexpected field''\<rparr>) \<and>
   parts (example_request\<lparr>method := ''POST'', target := Upload,
        origin := Some ''http://localhost:5500'',
        form_error := Some (PlainError ''Unexpected end of form'')\<rparr>) = [] \<and>
   handle example_env ''t'' (startup_fs example_env)
     (example_request\<lparr>method := ''POST'', target := Upload,
        origin := Some ''http://localhost:5500'',
        form_error := Some (PlainError ''Unexpected end of form'')\<rparr>)
     = (startup_fs example_env, \<lparr>status = 400, body = Message ''Unexpected end of form''\<rparr>) \<and>
   no_file_message \<noteq> ''Unexpected field'' \<and> no_file_message \<noteq> ''Unexpected end of form''"
proof -
  let ?a = "example_request\<lparr>method := ''POST'', target := Upload,
        origin := Some ''http://localhost:5500'',
        parts := [\<lparr>fieldname = ''avatar'', filename = ''cat.jpg'', mimetype = ''image/jpeg'',
                   content = ([] :: bytes)\<rparr>]\<rparr>"
  let ?b = "example_request\<lparr>method := ''POST'', target := Upload,
        origin := Some ''http://localhost:5500'',
        form_error := Some (PlainError ''Unexpected end of form'')\<rparr>"
  have g: "passes_gate ?a" "passes_gate ?b"
    by (simp_all add: passes_gate_def example_request_def allowedDomainsForCRUD_def)
  have a: "handle example_env ''t'' (startup_fs example_env) ?a =
      (startup_fs example_env, \<lparr>status = 400, body = Message ''Unexpected field''\<rparr>)"
    using handle_gated_upload [OF g(1), of example_env "''t''" "startup_fs example_env"]
    by (simp add: upload_single_def example_request_def limit_unexpected_file_def
        error_middleware_def)
  have b: "handle example_env ''t'' (startup_fs example_env) ?b =
      (startup_fs example_env, \<lparr>status = 400, body = Message ''Unexpected end of form''\<rparr>)"
    using handle_gated_upload [OF g(2), of example_env "''t''" "startup_fs example_env"]
    by (simp add: upload_single_def example_request_def error_middleware_def)
  from a b show ?thesis by (simp add: example_request_def no_file_message_def)
qed

text \<open>
  C8, amended: a gated upload whose form is complete and in which no part carries a file is
  answered 400 with the message that no file was provided, which differs from the
  messages of a wrong type, of a file that is too large and of an unexpected field; a
  form without a file that breaks off is answered 400 with the error of the multipart
  parser; a file in another field than \<open>image\<close> is refused with the unexpected-field
  failure 400. Exactly one file is accepted per request: a complete form with one file, in
  the field \<open>image\<close>, of an accepted type and within the size limit reaches the handler as
  \<open>req.file\<close>; a second file after it is refused with the unexpected-field failure; a
  request with two or more files is answered 400 and changes nothing; and an upload is
  answered 201 only when exactly one part carries a file.
\<close>

theorem no_file_failure:
  assumes "passes_gate req" and "method req = ''POST''" and "target req = Upload"
  shows "(form_error req = None \<and> (\<forall>p \<in> set (parts req). \<not> named p) \<longrightarrow>
            handle e token f req = (f, \<lparr>status = 400, body = Message no_file_message\<rparr>)) \<and>
         (\<forall>err. form_error req = Some err \<and> (\<forall>p \<in> set (parts req). \<not> named p) \<longrightarrow>
            handle e token f req = (f, \<lparr>status = 400, body = Message (err_message err)\<rparr>)) \<and>
         (\<forall>ps p qs. parts req = ps @ p # qs \<and> (\<forall>q \<in> set ps. \<not> named q) \<and> named p \<and>
            fieldname p \<noteq> ''image'' \<longrightarrow>
            handle e token f req = (f, \<lparr>status = 400, body = Message ''Unexpected field''\<rparr>)) \<and>
         no_file_message \<noteq> invalid_type_message \<and>
         no_file_message \<noteq> err_message limit_file_size \<and>
         no_file_message \<noteq> err_message limit_unexpected_file \<and>
         (\<forall>p. form_error req = None \<and> filter named (parts req) = [p] \<and>
            fieldname p = ''image'' \<and> mimetype p \<in> set allowedMimes \<and>
            \<not> too_large e (length (content p)) \<longrightarrow>
            handle e token f req = upload_handler e token f req (Some (file_of p))) \<and>
         (\<forall>p q rest. filter named (parts req) = p # q # rest \<and>
            fieldname p = ''image'' \<and> mimetype p \<in> set allowedMimes \<and>
            \<not> too_large e (length (content p)) \<longrightarrow>
            handle e token f req = (f, \<lparr>status = 400, body = Message ''Unexpected field''\<rparr>)) \<and>
         (2 \<le> length (filter named (parts req)) \<longrightarrow>
            status (snd (handle e token f req)) = 400 \<and> fst (handle e token f req) = f) \<and>
         (status (snd (handle e token f req)) = 201 \<longrightarrow>
            length (filter named (parts req)) = 1)"
proof -
  note h = handle_gated_upload [OF assms, of e token f]
  have a: "handle e token f req = (f, \<lparr>status = 400, body = Message no_file_message\<rparr>)"
    if "form_error req = None" "\<forall>p \<in> set (parts req). \<not> named p"
    using multer_no_named [OF that(2)] that(1)
    by (simp add: h upload_single_def upload_handler_def)
  have a': "handle e token f req = (f, \<lparr>status = 400, body = Message (err_message err)\<rparr>)"
    if "form_error req = Some err" "\<forall>p \<in> set (parts req). \<not> named p" for err
    using multer_no_named [OF that(2)] that(1)
    by (simp add: h upload_single_def error_middleware_message)
  have o: "handle e token f req = (f, \<lparr>status = 400, body = Message ''Unexpected field''\<rparr>)"
    if "parts req = ps @ p # qs" "\<forall>q \<in> set ps. \<not> named q" "named p" "fieldname p \<noteq> ''image''"
    for ps p qs
    using multer_other_field [OF that(2-4)] that(1)
    by (simp add: h upload_single_def error_middleware_def limit_unexpected_file_def)
  have b: "no_file_message \<noteq> invalid_type_message" "no_file_message \<noteq> err_message limit_file_size"
    "no_file_message \<noteq> err_message limit_unexpected_file"
    by (simp_all add: no_file_message_def invalid_type_message_def limit_file_size_def
        limit_unexpected_file_def)
  have one: "handle e token f req = upload_handler e token f req (Some (file_of p))"
    if "form_error req = None" "filter named (parts req) = [p]" "fieldname p = ''image''"
      "mimetype p \<in> set allowedMimes" "\<not> too_large e (length (content p))" for p
  proof -
    have "fileFilter p = Inr True" using that(4) by (simp add: fileFilter_def)
    from multer_accepts_one [OF that(3) this that(5) _ that(2), of 1 None]
    show ?thesis using that(1) by (simp add: h upload_single_def)
  qed
  have two: "handle e token f req = (f, \<lparr>status = 400, body = Message ''Unexpected field''\<rparr>)"
    if "filter named (parts req) = p # q # rest" "fieldname p = ''image''"
      "mimetype p \<in> set allowedMimes" "\<not> too_large e (length (content p))" for p q rest
  proof -
    have "fileFilter p = Inr True" using that(3) by (simp add: fileFilter_def)
    from multer_second_file [OF that(2) this that(4) that(1)]
    show ?thesis
      by (simp add: h upload_single_def error_middleware_def limit_unexpected_file_def)
  qed
  have many: "status (snd (handle e token f req)) = 400 \<and> fst (handle e token f req) = f"
    if "2 \<le> length (filter named (parts req))"
  proof (cases "upload_single e req")
    case (Inl err)
    then show ?thesis by (simp add: h error_middleware_message)
  next
    case (Inr fo)
    then have "length (filter named (parts req)) \<le> 1"
      using multer_count [of e "''image''" 1 "form_error req" "parts req" None fo]
      by (simp add: upload_single_def)
    with that show ?thesis by simp
  qed
  have c: "length (filter named (parts req)) = 1"
    if s: "status (snd (handle e token f req)) = 201"
  proof (cases "upload_single e req")
    case (Inl err)
    with s h show ?thesis by (simp add: error_middleware_message)
  next
    case (Inr fo)
    with s h have "fo \<noteq> None" using upload_handler_201 by auto
    then obtain fl where "fo = Some fl" by auto
    with Inr have m: "multer_single e ''image'' 1 (form_error req) (parts req) None = Inr (Some fl)"
      by (simp add: upload_single_def)
    from multer_count [OF m] multer_some_named [OF m]
    have "length (filter named (parts req)) \<le> 1" "filter named (parts req) \<noteq> []"
      by (auto simp: filter_empty_conv)
    then show ?thesis by (cases "filter named (parts req)") auto
  qed
  from a a' o b one two many c show ?thesis by blast
qed

theorem no_file_failure_witness:
  "handle example_env ''t'' (startup_fs example_env)
     (example_request\<lparr>method := ''POST'', target := Upload,
        origin := Some ''http://localhost:5500''\<rparr>)
     = (startup_fs example_env, \<lparr>status = 400, body = Message no_file_message\<rparr>) \<and>
   handle example_env example_token (startup_fs example_env) (upload_of ''cat.jpg'') =
     upload_handler example_env example_token (startup_fs example_env) (upload_of ''cat.jpg'')
       (Some \<lparr>originalname = ''cat.jpg'', file_mimetype = ''image/jpeg'',
              buffer = [0xFF, 0xD8, 0xFF]\<rparr>)"
proof -
  let ?req = "example_request\<lparr>method := ''POST'', target := Upload,
        origin := Some ''http://localhost:5500''\<rparr>"
  let ?p = "\<lparr>fieldname = ''image'', filename = ''cat.jpg'', mimetype = ''image/jpeg'',
             content = [0xFF, 0xD8, 0xFF :: 8 word]\<rparr>"
  have g: "passes_gate ?req"
    by (simp add: passes_gate_def example_request_def allowedDomainsForCRUD_def)
  have a: "handle example_env ''t'' (startup_fs example_env) ?req =
      (startup_fs example_env, \<lparr>status = 400, body = Message no_file_message\<rparr>)"
    using no_file_failure [OF g, of example_env "''t''" "startup_fs example_env"]
    by (simp add: example_request_def)
  have m: "method (upload_of ''cat.jpg'') = ''POST''" "target (upload_of ''cat.jpg'') = Upload"
    by (simp_all add: upload_of_def)
  have q: "form_error (upload_of ''cat.jpg'') = None \<and>
      filter named (parts (upload_of ''cat.jpg'')) = [?p] \<and> fieldname ?p = ''image'' \<and>
      mimetype ?p \<in> set allowedMimes \<and> \<not> too_large example_env (length (content ?p))"
    by (simp add: upload_of_def example_request_def named_def allowedMimes_def too_large_def
        fileSize_def)
  note t = no_file_failure [OF gate_upload_of m, of example_env example_token
      "startup_fs example_env"]
  from t q have "handle example_env example_token (startup_fs example_env) (upload_of ''cat.jpg'') =
      upload_handler example_env example_token (startup_fs example_env) (upload_of ''cat.jpg'')
        (Some (file_of ?p))"
    by blast
  with a show ?thesis by (simp add: file_of_def)
qed

text \<open>
  C9, as the specification states it, fails: the 500 response carries \<open>error.message\<close>
  unchanged, so when writing the output fails with a message that names the output path,
  the images directory reaches the caller.
\<close>

theorem processing_failure_counterexample:
  "status (snd (handle failing_env example_token (startup_fs failing_env) (upload_of ''cat.jpg''))) = 500 \<and>
   leaks_path failing_env
     (snd (handle failing_env example_token (startup_fs failing_env) (upload_of ''cat.jpg'')))"
proof -
  have n: "parse_name ''cat.jpg'' = ''cat''"
    by (simp add: parse_name_def parse_init_def mark_end_def mark_dot_def slice_def)
  have h: "snd (handle failing_env example_token (startup_fs failing_env) (upload_of ''cat.jpg'')) =
      \<lparr>status = 500, body = MessageError processing_message
        (''unable to open file '' @ imagesDir failing_env @
         ''/cat-1b9d6bcd-bbfd-4b2d-9b5d-ab8dfbbd4bed.webp for writing'')\<rparr>"
    by (simp add: handle_upload_of upload_handler_def uniqueFilename_def n path_join_def
        sharp_toFile_def failing_env_def example_env_def example_token_def)
  have "js_includes (''unable to open file '' @ imagesDir failing_env @
         ''/cat-1b9d6bcd-bbfd-4b2d-9b5d-ab8dfbbd4bed.webp for writing'') (imagesDir failing_env)"
    unfolding js_includes_iff by blast
  with h show ?thesis by (simp add: leaks_path_def)
qed

text \<open>
  C9, amended: every failure of decoding, encoding or writing during a gated upload that
  multer accepted is answered 500 and leaves the entries as they were; the \<open>message\<close> field
  is a fixed text that names no path, and the \<open>error\<close> field is the message of the failure,
  unchanged.
\<close>

theorem processing_failure:
  assumes "passes_gate req" and "method req = ''POST''" and "target req = Upload"
    and "upload_single e req = Inr (Some fl)"
    and "snd (sharp_toFile e f (buffer fl)
           (path_join (imagesDir e) (uniqueFilename (originalname fl) token))) = Inl m"
  shows "snd (handle e token f req) = \<lparr>status = 500, body = MessageError processing_message m\<rparr> \<and>
         CHR ''/'' \<notin> set processing_message \<and>
         entries (fst (handle e token f req)) = entries f"
proof -
  let ?p = "path_join (imagesDir e) (uniqueFilename (originalname fl) token)"
  have h: "handle e token f req = upload_handler e token f req (Some fl)"
    using handle_gated_upload [OF assms(1-3)] assms(4) by simp
  obtain f1 r where t: "sharp_toFile e f (buffer fl) ?p = (f1, r)"
    by (cases "sharp_toFile e f (buffer fl) ?p")
  with assms(5) have r: "r = Inl m" by simp
  have ent: "entries f1 = entries f"
    using t r by (auto simp: sharp_toFile_def Let_def split: sum.splits option.splits if_splits)
  have "handle e token f req = (f1, \<lparr>status = 500, body = MessageError processing_message m\<rparr>)"
    using t r by (simp add: h upload_handler_def)
  moreover have "CHR ''/'' \<notin> set processing_message"
    by (simp add: processing_message_def)
  ultimately show ?thesis using ent by simp
qed

theorem processing_failure_witness:
  "snd (handle failing_env example_token (startup_fs failing_env) (upload_of ''cat.jpg'')) =
     \<lparr>status = 500, body = MessageError processing_message
        ''unable to open file /srv/cdn/public/images/cat-1b9d6bcd-bbfd-4b2d-9b5d-ab8dfbbd4bed.webp for writing''\<rparr>"
proof -
  have n: "parse_name ''cat.jpg'' = ''cat''"
    by (simp add: parse_name_def parse_init_def mark_end_def mark_dot_def slice_def)
  have u: "upload_single failing_env (upload_of ''cat.jpg'') =
      Inr (Some \<lparr>originalname = ''cat.jpg'', file_mimetype = ''image/jpeg'', buffer = [0xFF, 0xD8, 0xFF]\<rparr>)"
    by (simp add: upload_single_upload_of)
  have m: "method (upload_of ''cat.jpg'') = ''POST''" "target (upload_of ''cat.jpg'') = Upload"
    by (simp_all add: upload_of_def)
  have s: "snd (sharp_toFile failing_env (startup_fs failing_env) [0xFF, 0xD8, 0xFF]
      (path_join (imagesDir failing_env) (uniqueFilename ''cat.jpg'' example_token))) =
      Inl ''unable to open file /srv/cdn/public/images/cat-1b9d6bcd-bbfd-4b2d-9b5d-ab8dfbbd4bed.webp for writing''"
    by (simp add: uniqueFilename_def n path_join_def sharp_toFile_def failing_env_def
        example_env_def example_token_def)
  show ?thesis
    using processing_failure [OF gate_upload_of m u, of "startup_fs failing_env" example_token] s
    by simp
qed

section \<open>What the requests leave in the store\<close>

text \<open>A file stored under a name that includes \<open>..\<close> survives every request: the delete
  handler never reaches its path, and an upload only writes files.\<close>

lemma unlink_other:
  "p \<noteq> q \<Longrightarrow> entries (fst (unlink e f p)) q = entries f q"
  by (simp add: unlink_entries)

lemma toFile_keeps_file:
  "entries f q = Some (File b) \<Longrightarrow> \<exists>b'. entries (fst (sharp_toFile e f buf p)) q = Some (File b')"
  by (auto simp: sharp_toFile_def Let_def split: sum.splits option.splits)

lemma path_join_plain:
  "name \<noteq> [] \<Longrightarrow> name \<noteq> ''.'' \<Longrightarrow> path_join dir name = dir @ ''/'' @ name"
  by (simp add: path_join_def)

lemma path_join_inject:
  assumes "path_join dir n = dir @ ''/'' @ F"
  shows "n = F"
  using assms by (auto simp: path_join_def split: if_splits)

lemma includes_dots_plain:
  assumes "js_includes F ''..''"
  shows "F \<noteq> [] \<and> F \<noteq> ''.''"
proof -
  from assms obtain a b where "F = a @ ''..'' @ b" by (auto simp: js_includes_iff)
  then have "length F \<ge> 2" by simp
  then show ?thesis by auto
qed

lemma delete_handler_keeps:
  assumes "js_includes F ''..''"
  shows "entries (fst (delete_handler e f name)) (imagesDir e @ ''/'' @ F) =
         entries f (imagesDir e @ ''/'' @ F)"
proof (cases "js_includes name ''..'' \<or> js_includes name ''/''")
  case True
  then show ?thesis by (auto simp: delete_handler_def)
next
  case False
  then have "path_join (imagesDir e) name \<noteq> imagesDir e @ ''/'' @ F"
    using path_join_inject assms by blast
  from unlink_other [OF this, of e f] False show ?thesis
    by (cases "unlink e f (path_join (imagesDir e) name)")
       (auto simp: delete_handler_def split: unlink_result.splits)
qed

lemma upload_handler_keeps_file:
  assumes "entries f q = Some (File b)"
  shows "\<exists>b'. entries (fst (upload_handler e token f req fo)) q = Some (File b')"
proof (cases fo)
  case None
  with assms show ?thesis by (simp add: upload_handler_def)
next
  case (Some fl)
  let ?p = "path_join (imagesDir e) (uniqueFilename (originalname fl) token)"
  obtain f1 r where t: "sharp_toFile e f (buffer fl) ?p = (f1, r)"
    by (cases "sharp_toFile e f (buffer fl) ?p")
  from toFile_keeps_file [OF assms, of e "buffer fl" ?p] t
  obtain b' where "entries f1 q = Some (File b')" by auto
  with Some t show ?thesis
    by (cases r) (simp_all add: upload_handler_def Let_def)
qed

lemma handle_keeps_file:
  assumes "js_includes F ''..''" and "entries f (imagesDir e @ ''/'' @ F) = Some (File b)"
  shows "\<exists>b'. entries (fst (handle e token f req)) (imagesDir e @ ''/'' @ F) = Some (File b')"
proof -
  have d: "\<exists>b'. entries (fst (delete_handler e f name)) (imagesDir e @ ''/'' @ F) = Some (File b')"
    for name
    using delete_handler_keeps [OF assms(1)] assms(2) by simp
  have u: "\<exists>b'. entries (fst (upload_handler e token f req fo)) (imagesDir e @ ''/'' @ F) = Some (File b')"
    for fo
    using upload_handler_keeps_file [OF assms(2)] by simp
  show ?thesis
    using assms(2) d u
    by (auto simp: handle_def routes_def split: option.splits target.splits sum.splits)
qed

lemma run_keeps_file:
  assumes "js_includes F ''..''"
  shows "entries f (imagesDir e @ ''/'' @ F) = Some (File b) \<Longrightarrow>
         \<exists>b'. entries (run e f rs) (imagesDir e @ ''/'' @ F) = Some (File b')"
proof (induction rs arbitrary: f b)
  case Nil
  then show ?case by simp
next
  case (Cons r rs)
  obtain token req where r: "r = (token, req)" by (cases r)
  from handle_keeps_file [OF assms Cons.prems, of token req]
  obtain b' where "entries (fst (handle e token f req)) (imagesDir e @ ''/'' @ F) = Some (File b')"
    by blast
  from Cons.IH [OF this] r show ?case by simp
qed

lemma handle_delete_target_status:
  assumes "delete_handler e f name = (f, invalid_name)" and "target req = Delete name"
  shows "status (snd (handle e token f req)) \<noteq> 200"
  using assms
  by (auto simp: handle_def routes_def error_middleware_def forbidden_def invalid_name_def
      default_404_def checkDomain_def split: option.splits if_splits)

lemma parent_segment_no_slash:
  assumes "CHR ''/'' \<notin> set name"
  shows "parent_segment name \<longleftrightarrow> name = ''..''"
proof -
  have "split_on (\<lambda>c. c = CHR ''/'') name = [name]"
    by (rule split_on_no_sep) (use assms in auto)
  then show ?thesis by (auto simp: parent_segment_def)
qed

text \<open>
  C10: the delete handler refuses every name in which \<open>..\<close> occurs anywhere. The stored name
  keeps the parsed original name in front, so when that holds \<open>..\<close> the stored name is
  refused with the validation failure 400 on every gated DELETE, no DELETE request of any
  caller changes the filesystem or is answered 200, and a file stored under that name
  is still there after any sequence of requests.
\<close>

theorem dotted_name_undeletable:
  assumes "js_includes (parse_name orig) ''..''"
  shows "(\<forall>name. js_includes name ''..'' \<longrightarrow> delete_handler e f name = (f, invalid_name)) \<and>
         js_includes (uniqueFilename orig token) ''..'' \<and>
         delete_handler e f (uniqueFilename orig token) = (f, invalid_name) \<and>
         status invalid_name = 400 \<and>
         (\<forall>req tok. target req = Delete (uniqueFilename orig token) \<longrightarrow>
            fst (handle e tok f req) = f \<and> status (snd (handle e tok f req)) \<noteq> 200) \<and>
         (\<forall>req tok. passes_gate req \<and> method req = ''DELETE'' \<and>
            target req = Delete (uniqueFilename orig token) \<longrightarrow>
            handle e tok f req = (f, invalid_name)) \<and>
         (\<forall>rs b. entries f (path_join (imagesDir e) (uniqueFilename orig token)) = Some (File b) \<longrightarrow>
            (\<exists>b'. entries (run e f rs) (path_join (imagesDir e) (uniqueFilename orig token))
                    = Some (File b')))"
proof -
  let ?F = "uniqueFilename orig token"
  have a: "\<forall>name. js_includes name ''..'' \<longrightarrow> delete_handler e f name = (f, invalid_name)"
    by (simp add: delete_handler_invalid)
  have i: "js_includes ?F ''..''"
    using assms by (simp add: uniqueFilename_def js_includes_append_left)
  have d: "delete_handler e f ?F = (f, invalid_name)"
    using i by (simp add: delete_handler_invalid)
  have s: "status invalid_name = 400"
    by (simp add: invalid_name_def)
  have pj: "path_join (imagesDir e) ?F = imagesDir e @ ''/'' @ ?F"
    using includes_dots_plain [OF i] by (simp add: path_join_plain)
  have r: "\<forall>req tok. target req = Delete ?F \<longrightarrow>
      fst (handle e tok f req) = f \<and> status (snd (handle e tok f req)) \<noteq> 200"
    using handle_delete_target_fs [OF d] handle_delete_target_status [OF d] by blast
  have g: "\<forall>req tok. passes_gate req \<and> method req = ''DELETE'' \<and> target req = Delete ?F \<longrightarrow>
      handle e tok f req = (f, invalid_name)"
    using handle_gated_delete d by metis
  have k: "\<forall>rs b. entries f (path_join (imagesDir e) ?F) = Some (File b) \<longrightarrow>
      (\<exists>b'. entries (run e f rs) (path_join (imagesDir e) ?F) = Some (File b'))"
    using run_keeps_file [OF i] by (simp add: pj)
  from a i d s r g k show ?thesis by blast
qed

theorem dotted_name_undeletable_witness:
  "parse_name ''my..cat.png'' = ''my..cat'' \<and>
   uniqueFilename ''my..cat.png'' example_token = ''my..cat-1b9d6bcd-bbfd-4b2d-9b5d-ab8dfbbd4bed.webp'' \<and>
   \<not> parent_segment (uniqueFilename ''my..cat.png'' example_token) \<and>
   handle example_env ''t'' (fst (handle example_env example_token (startup_fs example_env) (upload_of ''my..cat.png'')))
     (example_request\<lparr>method := ''DELETE'',
        target := Delete ''my..cat-1b9d6bcd-bbfd-4b2d-9b5d-ab8dfbbd4bed.webp'',
        origin := Some ''http://localhost:5500''\<rparr>)
     = (fst (handle example_env example_token (startup_fs example_env) (upload_of ''my..cat.png'')),
        invalid_name)"
proof -
  have n: "parse_name ''my..cat.png'' = ''my..cat''"
    by (simp add: parse_name_def parse_init_def mark_end_def mark_dot_def slice_def)
  have u: "uniqueFilename ''my..cat.png'' example_token =
      ''my..cat-1b9d6bcd-bbfd-4b2d-9b5d-ab8dfbbd4bed.webp''"
    by (simp add: uniqueFilename_def n example_token_def)
  have ps: "\<not> parent_segment (uniqueFilename ''my..cat.png'' example_token)"
    unfolding u by (simp add: parent_segment_no_slash)
  have i: "js_includes (parse_name ''my..cat.png'') ''..''"
    unfolding n by simp
  let ?f = "fst (handle example_env example_token (startup_fs example_env) (upload_of ''my..cat.png''))"
  let ?req = "example_request\<lparr>method := ''DELETE'',
        target := Delete ''my..cat-1b9d6bcd-bbfd-4b2d-9b5d-ab8dfbbd4bed.webp'',
        origin := Some ''http://localhost:5500''\<rparr>"
  have g: "passes_gate ?req"
    by (simp add: passes_gate_def example_request_def allowedDomainsForCRUD_def)
  have "handle example_env ''t'' ?f ?req =
      delete_handler example_env ?f ''my..cat-1b9d6bcd-bbfd-4b2d-9b5d-ab8dfbbd4bed.webp''"
    by (rule handle_gated_delete [OF g]) simp_all
  with dotted_name_undeletable [OF i, where token = example_token and e = example_env
      and f = ?f] u
  have "handle example_env ''t'' ?f ?req = (?f, invalid_name)" by simp
  with n u ps show ?thesis by simp
qed

section \<open>Reading\<close>

text \<open>What GET /images/name answers for a name without a slash: the file when the name is
  servable and stored, 404 when nothing is stored under it or when it starts with a dot.\<close>

lemma segs_plain:
  assumes "CHR ''/'' \<notin> set name" and "name \<noteq> []" and "name \<noteq> ''.''" and "name \<noteq> ''..''"
  shows "norm_segs [] (split_on (\<lambda>c. c = CHR ''/'') name) = [name]"
proof -
  have "split_on (\<lambda>c. c = CHR ''/'') name = [name]"
    by (rule split_on_no_sep) (use assms in auto)
  with assms show ?thesis by simp
qed

lemma last_not_slash: "CHR ''/'' \<notin> set name \<Longrightarrow> name \<noteq> [] \<Longrightarrow> last name \<noteq> CHR ''/''"
  using last_in_set by metis

lemma serve_static_servable:
  assumes "servable name" and "entries f (imagesDir e @ ''/'' @ name) = Some (File b)"
    and "method req = ''GET''"
  shows "serve_static e f req name = Some \<lparr>status = 200, body = FileBody b\<rparr>"
proof -
  from assms(1) have n: "CHR ''/'' \<notin> set name" "name \<noteq> []" "name \<noteq> ''.''" "name \<noteq> ''..''"
    "hd name \<noteq> CHR ''.''" "CHR 0x00 \<notin> set name" "\<not> has_up_segment name"
    by (auto simp: servable_def)
  have d: "\<not> is_dotfile name" using n(5) by (simp add: is_dotfile_def)
  show ?thesis
    using assms(2,3) n(2,6,7) d last_not_slash [OF n(1,2)]
    by (simp add: serve_static_def segs_plain [OF n(1-4)] get_or_head_def send_body_def Let_def)
qed

lemma read_servable:
  assumes "servable name" and "entries f (imagesDir e @ ''/'' @ name) = Some (File b)"
    and "method req = ''GET''" and "target req = Images name"
  shows "handle e token f req = (f, \<lparr>status = 200, body = FileBody b\<rparr>)"
  using serve_static_servable [OF assms(1-3)] assms(3,4) by (simp add: handle_def)

lemma static_none_404:
  assumes "serve_static e f req name = None"
    and "method req = ''GET''" and "target req = Images name" and "json_error req = None"
  shows "handle e token f req = (f, default_404)"
  using assms by (simp add: handle_def routes_def)

lemma read_missing:
  assumes "CHR ''/'' \<notin> set name" and "name \<noteq> []" and "name \<noteq> ''.''" and "name \<noteq> ''..''"
    and "entries f (imagesDir e @ ''/'' @ name) = None"
    and "method req = ''GET''" and "target req = Images name" and "json_error req = None"
  shows "handle e token f req = (f, default_404)"
proof -
  have "serve_static e f req name = None"
    using assms(5) by (simp add: serve_static_def segs_plain [OF assms(1-4)] Let_def)
  then show ?thesis by (rule static_none_404 [OF _ assms(6-8)])
qed

lemma read_dotfile:
  assumes "CHR ''/'' \<notin> set name" and "is_dotfile name"
    and "method req = ''GET''" and "target req = Images name" and "json_error req = None"
  shows "handle e token f req = (f, default_404)"
proof -
  from assms(2) have n: "name \<noteq> []" "name \<noteq> ''.''" by (auto simp: is_dotfile_def)
  have "serve_static e f req name = None"
  proof (cases "name = ''..''")
    case True
    then show ?thesis by (simp add: serve_static_def has_up_segment_def Let_def)
  next
    case False
    show ?thesis
      using assms(2) n(1) last_not_slash [OF assms(1) n(1)]
      by (simp add: serve_static_def segs_plain [OF assms(1) n False] Let_def)
  qed
  then show ?thesis by (rule static_none_404 [OF _ assms(3-5)])
qed

lemma read_after_delete:
  assumes "passes_gate del" and "method del = ''DELETE''" and "target del = Delete name"
    and "handle e token f del = (f1, deleted)"
    and "method req = ''GET''" and "target req = Images name" and "json_error req = None"
  shows "handle e token' f1 req = (f1, default_404)"
proof -
  have h: "delete_handler e f name = (f1, deleted)"
    using handle_gated_delete [OF assms(1-3)] assms(4) by simp
  have v: "\<not> js_includes name ''..''" "\<not> js_includes name ''/''"
    using h by (auto simp: delete_handler_def invalid_name_def deleted_def split: if_splits)
  let ?p = "path_join (imagesDir e) name"
  have u: "unlink e f ?p = (f1, Removed)"
    using h v
    by (cases "unlink e f ?p")
       (auto simp: delete_handler_def not_found_def delete_failed_def deleted_def
          error_middleware_def split: unlink_result.splits if_splits)
  then have gone: "entries f1 ?p = None"
    using unlink_entries [of e f ?p] by simp
  have ns: "CHR ''/'' \<notin> set name" using v(2) by (simp add: js_includes_single)
  have nd: "name \<noteq> ''..''" using v(1) by auto
  show ?thesis
  proof (cases "name = [] \<or> name = ''.''")
    case False
    with gone have "entries f1 (imagesDir e @ ''/'' @ name) = None"
      by (simp add: path_join_def)
    with False ns nd show ?thesis
      using read_missing assms(5-7) by blast
  next
    case True
    then have p: "?p = imagesDir e" by (auto simp: path_join_def)
    have "serve_static e f1 req name = None"
      using True gone p by (auto simp: serve_static_def Let_def)
    then show ?thesis by (rule static_none_404 [OF _ assms(5-7)])
  qed
qed

text \<open>
  C2 at a failing input: the upload of a file named \<open>.cat.png\<close> from an allowed origin
  succeeds with 201 and the stored name \<open>.cat-<token>.webp\<close>; the file is in the store;
  GET /images/ with that name is answered 404, because the static middleware ignores a
  name that starts with a dot.
\<close>

theorem hidden_upload_unreadable:
  "snd (handle example_env example_token (startup_fs example_env) (upload_of ''.cat.png'')) =
     \<lparr>status = 201,
      body = Uploaded uploaded_message ''.cat-1b9d6bcd-bbfd-4b2d-9b5d-ab8dfbbd4bed.webp''
        ''http://localhost:3000/images/.cat-1b9d6bcd-bbfd-4b2d-9b5d-ab8dfbbd4bed.webp''\<rparr> \<and>
   entries (fst (handle example_env example_token (startup_fs example_env) (upload_of ''.cat.png'')))
     (imagesDir example_env @ ''/.cat-1b9d6bcd-bbfd-4b2d-9b5d-ab8dfbbd4bed.webp'')
     = Some (File [0xFF, 0xD8, 0xFF]) \<and>
   snd (handle example_env ''t''
     (fst (handle example_env example_token (startup_fs example_env) (upload_of ''.cat.png'')))
     (read_of ''.cat-1b9d6bcd-bbfd-4b2d-9b5d-ab8dfbbd4bed.webp'')) = default_404"
proof -
  have n: "parse_name ''.cat.png'' = ''.cat''"
    by (simp add: parse_name_def parse_init_def mark_end_def mark_dot_def slice_def)
  have u: "uniqueFilename ''.cat.png'' example_token =
      ''.cat-1b9d6bcd-bbfd-4b2d-9b5d-ab8dfbbd4bed.webp''"
    by (simp add: uniqueFilename_def n example_token_def)
  let ?h = "handle example_env example_token (startup_fs example_env) (upload_of ''.cat.png'')"
  have h: "?h = upload_handler example_env example_token (startup_fs example_env)
      (upload_of ''.cat.png'')
      (Some \<lparr>originalname = ''.cat.png'', file_mimetype = ''image/jpeg'', buffer = [0xFF, 0xD8, 0xFF]\<rparr>)"
    by (rule handle_upload_of) simp
  have r: "snd ?h = \<lparr>status = 201,
      body = Uploaded uploaded_message ''.cat-1b9d6bcd-bbfd-4b2d-9b5d-ab8dfbbd4bed.webp''
        ''http://localhost:3000/images/.cat-1b9d6bcd-bbfd-4b2d-9b5d-ab8dfbbd4bed.webp''\<rparr>"
    unfolding h
    by (simp add: upload_handler_def u path_join_def sharp_toFile_def example_env_def
        startup_fs_def upload_of_def example_request_def host_text_def Let_def)
  have e: "entries (fst ?h) (imagesDir example_env @ ''/.cat-1b9d6bcd-bbfd-4b2d-9b5d-ab8dfbbd4bed.webp'')
      = Some (File [0xFF, 0xD8, 0xFF])"
    unfolding h
    by (simp add: upload_handler_def u path_join_def sharp_toFile_def example_env_def
        startup_fs_def Let_def)
  have "handle example_env ''t'' (fst ?h) (read_of ''.cat-1b9d6bcd-bbfd-4b2d-9b5d-ab8dfbbd4bed.webp'')
      = (fst ?h, default_404)"
    by (rule read_dotfile) (simp_all add: is_dotfile_def read_of_def example_request_def)
  with r e show ?thesis by simp
qed

section \<open>The stored name\<close>

text \<open>A canonical UUID holds no slash; a response with status 201 can only come from the
  upload handler with a file that multer accepted.\<close>

lemma uuid_char_no_slash:
  "k \<in> set ''xxxxxxxx-xxxx-4xxx-yxxx-xxxxxxxxxxxx'' \<Longrightarrow> \<not> uuid_char k (CHR ''/'')"
  by (auto simp: uuid_char_def is_hex_def)

lemma uuid_no_slash:
  assumes "uuid_canonical t"
  shows "CHR ''/'' \<notin> set t"
proof
  assume "CHR ''/'' \<in> set t"
  then obtain i where i: "i < length t" "t ! i = CHR ''/''" by (auto simp: in_set_conv_nth)
  let ?pat = "''xxxxxxxx-xxxx-4xxx-yxxx-xxxxxxxxxxxx''"
  from assms have l: "list_all2 uuid_char ?pat t" by (simp add: uuid_canonical_def)
  then have len: "length ?pat = length t" by (rule list_all2_lengthD)
  from list_all2_nthD2 [OF l i(1)] i(2) have "uuid_char (?pat ! i) (CHR ''/'')" by simp
  moreover have "?pat ! i \<in> set ?pat" using i(1) len by (intro nth_mem) simp
  ultimately show False using uuid_char_no_slash by blast
qed

lemma example_token_canonical: "uuid_canonical example_token"
  by (simp add: uuid_canonical_def example_token_def uuid_char_def is_hex_def)

lemma routes_201:
  assumes "status (snd (routes e token f req)) = 201"
  shows "\<exists>fl. upload_single e req = Inr (Some fl) \<and>
           routes e token f req = upload_handler e token f req (Some fl)"
proof (cases "target req")
  case Upload
  show ?thesis
  proof (cases "method req = ''POST''")
    case True
    show ?thesis
    proof (cases "checkDomain req")
      case None
      show ?thesis
      proof (cases "upload_single e req")
        case (Inl err)
        with assms Upload True None show ?thesis
          by (cases err) (simp_all add: routes_def error_middleware_def)
      next
        case (Inr fo)
        with assms Upload True None show ?thesis
          by (cases fo) (simp_all add: routes_def upload_handler_def)
      qed
    next
      case (Some r)
      then have "r = forbidden" by (auto simp: checkDomain_def split: if_splits option.splits)
      with assms Upload True Some show ?thesis by (simp add: routes_def forbidden_def)
    qed
  next
    case False
    with assms Upload show ?thesis by (simp add: routes_def default_404_def)
  qed
next
  case (Delete name)
  have d: "status (snd (delete_handler e f name)) \<noteq> 201"
    by (cases "unlink e f (path_join (imagesDir e) name)")
       (auto simp: delete_handler_def invalid_name_def not_found_def delete_failed_def
          deleted_def error_middleware_def split: unlink_result.splits)
  have "checkDomain req = None \<or> checkDomain req = Some forbidden"
    by (auto simp: checkDomain_def split: if_splits option.splits)
  with assms Delete d show ?thesis
    by (auto simp: routes_def default_404_def forbidden_def split: if_splits)
next
  case (DeleteUndecodable raw)
  with assms show ?thesis by (simp add: routes_def error_middleware_def decode_failed_def)
next
  case (Images name)
  with assms show ?thesis by (simp add: routes_def default_404_def)
next
  case ImagesMount
  with assms show ?thesis by (simp add: routes_def default_404_def)
next
  case Root
  with assms show ?thesis by (simp add: routes_def default_404_def health_def split: if_splits)
next
  case Other
  with assms show ?thesis by (simp add: routes_def default_404_def)
qed

lemma serve_static_status:
  "serve_static e f req name = Some r \<Longrightarrow> status r \<noteq> 201"
  by (auto simp: serve_static_def Let_def split: if_splits option.splits entry.splits)

lemma serve_mount_status:
  "serve_mount e f req = Some r \<Longrightarrow> status r \<noteq> 201"
  by (auto simp: serve_mount_def split: if_splits)

lemma handle_201:
  assumes "status (snd (handle e token f req)) = 201"
  shows "\<exists>fl. upload_single e req = Inr (Some fl) \<and>
           handle e token f req = upload_handler e token f req (Some fl)"
proof -
  define st where "st = (case target req of
      Images name \<Rightarrow> serve_static e f req name
    | ImagesMount \<Rightarrow> serve_mount e f req
    | _ \<Rightarrow> None)"
  have o: "method req \<noteq> ''OPTIONS''"
    using assms by (auto simp: handle_def)
  have s: "st = None"
  proof (cases st)
    case None
    then show ?thesis .
  next
    case (Some r)
    then have "status r \<noteq> 201"
      using serve_static_status serve_mount_status
      by (auto simp: st_def split: target.splits)
    with assms o Some show ?thesis by (simp add: handle_def st_def [symmetric])
  qed
  have j: "json_error req = None"
    using assms o s
    by (cases "json_error req") (simp_all add: handle_def st_def [symmetric] error_middleware_def)
  from o s j have "handle e token f req = routes e token f req"
    by (simp add: handle_def st_def [symmetric])
  with assms routes_201 show ?thesis by metis
qed

lemma upload_handler_body:
  assumes "status (snd (upload_handler e token f req (Some fl))) = 201"
  shows "body (snd (upload_handler e token f req (Some fl))) =
           Uploaded uploaded_message (uniqueFilename (originalname fl) token)
             (protocol req @ ''://'' @ host_text (host req) @ ''/images/'' @
              uniqueFilename (originalname fl) token)"
proof -
  let ?p = "path_join (imagesDir e) (uniqueFilename (originalname fl) token)"
  obtain f1 r where t: "sharp_toFile e f (buffer fl) ?p = (f1, r)"
    by (cases "sharp_toFile e f (buffer fl) ?p")
  with assms show ?thesis
    by (cases r) (simp_all add: upload_handler_def Let_def)
qed

text \<open>
  C4: for every original name and every canonical UUID, the stored name is the parsed name,
  a hyphen, the UUID and \<open>.webp\<close>; the parsed name is the original name with its directory
  components and its extension stripped (for every name whose last component is not the
  parent directory \<open>..\<close>, which has neither a file name nor an extension); the stored name
  holds no slash, ends in \<open>.webp\<close> and differs from the original name; and every upload
  answered 201 returns such a name, made from the original name of the uploaded file.
\<close>

theorem stored_name:
  assumes "uuid_canonical token"
  shows "uniqueFilename orig token = parse_name orig @ ''-'' @ token @ ''.webp'' \<and>
         (last_component orig \<noteq> ''..'' \<longrightarrow> parse_name orig = base_label orig) \<and>
         CHR ''/'' \<notin> set (uniqueFilename orig token) \<and>
         (\<exists>r. uniqueFilename orig token = r @ ''.webp'') \<and>
         uniqueFilename orig token \<noteq> orig \<and>
         (\<forall>e f req. status (snd (handle e token f req)) = 201 \<longrightarrow>
            (\<exists>fl. upload_single e req = Inr (Some fl) \<and>
               body (snd (handle e token f req)) =
                 Uploaded uploaded_message (uniqueFilename (originalname fl) token)
                   (protocol req @ ''://'' @ host_text (host req) @ ''/images/'' @
                    uniqueFilename (originalname fl) token) \<and>
               (\<exists>r. uniqueFilename (originalname fl) token = r @ ''.webp'') \<and>
               uniqueFilename (originalname fl) token \<noteq> originalname fl))"
proof -
  have ns: "CHR ''/'' \<notin> set token" by (rule uuid_no_slash [OF assms])
  have a: "uniqueFilename orig token = parse_name orig @ ''-'' @ token @ ''.webp''"
    by (simp add: uniqueFilename_def)
  have b: "last_component orig \<noteq> ''..'' \<longrightarrow> parse_name orig = base_label orig"
    using parse_name_base_label by blast
  have c: "CHR ''/'' \<notin> set (uniqueFilename orig token)"
    using ns parse_name_no_slash by (simp add: uniqueFilename_def)
  have d: "\<exists>r. uniqueFilename x token = r @ ''.webp''" for x
  proof -
    have "uniqueFilename x token = (parse_name x @ ''-'' @ token) @ ''.webp''"
      by (simp add: uniqueFilename_def)
    then show ?thesis by blast
  qed
  have e: "uniqueFilename x token \<noteq> x" for x
    by (rule unique_name_differs [OF ns])
  have g: "\<exists>fl. upload_single e req = Inr (Some fl) \<and>
               body (snd (handle e token f req)) =
                 Uploaded uploaded_message (uniqueFilename (originalname fl) token)
                   (protocol req @ ''://'' @ host_text (host req) @ ''/images/'' @
                    uniqueFilename (originalname fl) token) \<and>
               (\<exists>r. uniqueFilename (originalname fl) token = r @ ''.webp'') \<and>
               uniqueFilename (originalname fl) token \<noteq> originalname fl"
    if s: "status (snd (handle e token f req)) = 201" for e f req
  proof -
    from handle_201 [OF s] obtain fl where fl: "upload_single e req = Inr (Some fl)"
      "handle e token f req = upload_handler e token f req (Some fl)" by blast
    from s fl(2) have "status (snd (upload_handler e token f req (Some fl))) = 201" by simp
    from upload_handler_body [OF this] fl d [of "originalname fl"] e [of "originalname fl"]
    show ?thesis by auto
  qed
  from a b c d [of orig] e [of orig] g show ?thesis by blast
qed

theorem stored_name_witness:
  "uuid_canonical example_token \<and> last_component ''cat.jpg'' \<noteq> ''..'' \<and>
   base_label ''cat.jpg'' = ''cat'' \<and>
   uniqueFilename ''cat.jpg'' example_token = ''cat-1b9d6bcd-bbfd-4b2d-9b5d-ab8dfbbd4bed.webp'' \<and>
   uniqueFilename ''cat.jpg'' example_token \<noteq> ''cat.jpg'' \<and>
   snd (handle example_env example_token (startup_fs example_env) (upload_of ''cat.jpg'')) =
     \<lparr>status = 201,
      body = Uploaded uploaded_message ''cat-1b9d6bcd-bbfd-4b2d-9b5d-ab8dfbbd4bed.webp''
        ''http://localhost:3000/images/cat-1b9d6bcd-bbfd-4b2d-9b5d-ab8dfbbd4bed.webp''\<rparr>"
proof -
  have l: "last_component ''cat.jpg'' = ''cat.jpg''"
    by (simp add: last_component_def)
  have b: "base_label ''cat.jpg'' = ''cat''"
    by (simp add: base_label_def l strip_extension_def)
  note t = stored_name [OF example_token_canonical, of "''cat.jpg''"]
  from t l b have n: "parse_name ''cat.jpg'' = ''cat''" by simp
  from t n have u: "uniqueFilename ''cat.jpg'' example_token =
      ''cat-1b9d6bcd-bbfd-4b2d-9b5d-ab8dfbbd4bed.webp''"
    by (simp add: example_token_def)
  from t have d: "uniqueFilename ''cat.jpg'' example_token \<noteq> ''cat.jpg''" by simp
  let ?h = "handle example_env example_token (startup_fs example_env) (upload_of ''cat.jpg'')"
  have h: "?h = upload_handler example_env example_token (startup_fs example_env)
      (upload_of ''cat.jpg'')
      (Some \<lparr>originalname = ''cat.jpg'', file_mimetype = ''image/jpeg'', buffer = [0xFF, 0xD8, 0xFF]\<rparr>)"
    by (rule handle_upload_of) simp
  have s: "status (snd ?h) = 201"
    unfolding h
    by (simp add: upload_handler_def u path_join_def sharp_toFile_def example_env_def
        startup_fs_def Let_def)
  have us: "upload_single example_env (upload_of ''cat.jpg'') =
      Inr (Some \<lparr>originalname = ''cat.jpg'', file_mimetype = ''image/jpeg'', buffer = [0xFF, 0xD8, 0xFF]\<rparr>)"
    by (simp add: upload_single_upload_of)
  note g = t [THEN conjunct2, THEN conjunct2, THEN conjunct2, THEN conjunct2, THEN conjunct2,
      rule_format, OF s]
  then obtain fl where fl: "upload_single example_env (upload_of ''cat.jpg'') = Inr (Some fl)"
    "body (snd ?h) =
      Uploaded uploaded_message (uniqueFilename (originalname fl) example_token)
        (protocol (upload_of ''cat.jpg'') @ ''://'' @ host_text (host (upload_of ''cat.jpg'')) @
         ''/images/'' @ uniqueFilename (originalname fl) example_token)"
    by blast
  from fl(1) us have "originalname fl = ''cat.jpg''" by auto
  with fl(2) have "body (snd ?h) =
      Uploaded uploaded_message (uniqueFilename ''cat.jpg'' example_token)
        (protocol (upload_of ''cat.jpg'') @ ''://'' @ host_text (host (upload_of ''cat.jpg'')) @
         ''/images/'' @ uniqueFilename ''cat.jpg'' example_token)"
    by simp
  then have bd: "body (snd ?h) =
      Uploaded uploaded_message ''cat-1b9d6bcd-bbfd-4b2d-9b5d-ab8dfbbd4bed.webp''
        ''http://localhost:3000/images/cat-1b9d6bcd-bbfd-4b2d-9b5d-ab8dfbbd4bed.webp''"
    by (simp add: u upload_of_def example_request_def host_text_def)
  from s bd have "snd ?h = \<lparr>status = 201,
      body = Uploaded uploaded_message ''cat-1b9d6bcd-bbfd-4b2d-9b5d-ab8dfbbd4bed.webp''
        ''http://localhost:3000/images/cat-1b9d6bcd-bbfd-4b2d-9b5d-ab8dfbbd4bed.webp''\<rparr>"
    by (cases "snd ?h") simp
  with example_token_canonical l b u d show ?thesis by simp
qed


section \<open>Reading back an upload\<close>

text \<open>Where the round trip holds: a stored name that the static middleware serves is read
  back with the encoded bytes by any caller, whatever its origin.\<close>

lemma servable_join:
  assumes "servable name"
  shows "path_join dir name = dir @ ''/'' @ name"
proof -
  from assms have "name \<noteq> []" "hd name \<noteq> CHR ''.''" by (simp_all add: servable_def)
  then have "name \<noteq> ''.''" by auto
  with \<open>name \<noteq> []\<close> show ?thesis by (simp add: path_join_def)
qed

lemma upload_handler_stores:
  assumes "upload_handler e token f req (Some fl) = (f1, r)" and "status r = 201"
  shows "\<exists>b. sharp_webp e 80 (buffer fl) = Inr b \<and>
           entries f1 (path_join (imagesDir e) (uniqueFilename (originalname fl) token))
             = Some (File b)"
proof -
  let ?p = "path_join (imagesDir e) (uniqueFilename (originalname fl) token)"
  obtain g x where t: "sharp_toFile e f (buffer fl) ?p = (g, x)"
    by (cases "sharp_toFile e f (buffer fl) ?p")
  with assms have x: "x = Inr ()" "g = f1"
    by (cases x; simp add: upload_handler_def Let_def; fastforce)+
  from t x show ?thesis
    by (auto simp: sharp_toFile_def Let_def split: sum.splits option.splits if_splits)
qed

lemma read_after_upload:
  assumes "handle e token f req = (f1, r)" and "status r = 201"
    and "body r = Uploaded m name url" and "servable name"
    and "method rd = ''GET''" and "target rd = Images name"
  shows "\<exists>b fl. upload_single e req = Inr (Some fl) \<and> sharp_webp e 80 (buffer fl) = Inr b \<and>
           handle e token' f1 rd = (f1, \<lparr>status = 200, body = FileBody b\<rparr>)"
proof -
  from assms(1,2) have "status (snd (handle e token f req)) = 201" by simp
  from handle_201 [OF this] obtain fl where fl: "upload_single e req = Inr (Some fl)"
    "handle e token f req = upload_handler e token f req (Some fl)" by blast
  with assms(1) have u: "upload_handler e token f req (Some fl) = (f1, r)" by simp
  from u assms(2) have "status (snd (upload_handler e token f req (Some fl))) = 201" by simp
  from upload_handler_body [OF this] u assms(3)
  have n: "name = uniqueFilename (originalname fl) token" by simp
  from upload_handler_stores [OF u assms(2)] obtain b where b: "sharp_webp e 80 (buffer fl) = Inr b"
    "entries f1 (path_join (imagesDir e) name) = Some (File b)" using n by auto
  from b(2) have "entries f1 (imagesDir e @ ''/'' @ name) = Some (File b)"
    by (simp add: servable_join [OF assms(4)])
  from read_servable [OF assms(4) this assms(5,6)] fl(1) b(1) show ?thesis by blast
qed


section \<open>The size limit\<close>

text \<open>On both sides of the limit the outcome does not depend on the parser: a file above
  \<open>limits.fileSize\<close> is refused with 400, a file below it reaches the handler.\<close>

lemma oversize_rejected:
  assumes "passes_gate req" and "method req = ''POST''" and "target req = Upload"
    and "parts req = [p]" and "named p" and "fieldname p = ''image''"
    and "mimetype p \<in> set allowedMimes" and "length (content p) > fileSize"
  shows "handle e token f req = (f, \<lparr>status = 400, body = Message ''File too large''\<rparr>)"
proof -
  have "upload_single e req = Inl limit_file_size"
    using assms(4-8) by (simp add: upload_single_def named_def fileFilter_def too_large_def)
  then show ?thesis
    using handle_gated_upload [OF assms(1-3)]
    by (simp add: error_middleware_def limit_file_size_def)
qed

lemma below_limit_accepted:
  assumes "parts req = [p]" and "named p" and "fieldname p = ''image''"
    and "mimetype p \<in> set allowedMimes" and "length (content p) < fileSize"
    and "form_error req = None"
  shows "upload_single e req =
           Inr (Some \<lparr>originalname = filename p, file_mimetype = mimetype p, buffer = content p\<rparr>)"
  using assms by (simp add: upload_single_def named_def fileFilter_def too_large_def)

end
